theory Spec2Isabelle
  imports Main "HOL-Library.AList" "HOL-Library.Word"
begin

section \<open>Go values used by package mip\<close>

subsection \<open>float64\<close>

text \<open>
  A float64 is NaN, an infinity, or a finite value. The finite value \<open>Finite k\<close> stands
  for \<open>k * 2^-1074\<close>: every finite binary64 number is such a multiple with at most 53
  significant bits in \<open>k\<close>. The two zeros are one value here; Go's \<open>==\<close> and \<open>+\<close> do not
  tell them apart, and no function of the package looks at the sign of a zero.
\<close>

datatype float64 = NaN | PosInf | NegInf | Finite int

text \<open>The number of low bits of a magnitude that do not fit into 53 significant bits.\<close>

function excess_bits :: "nat \<Rightarrow> nat" where
  "excess_bits n = (if n < 2 ^ 53 then 0 else Suc (excess_bits (n div 2)))"
  by pat_completeness auto
termination
  by (relation "measure id") auto

declare excess_bits.simps [simp del]

text \<open>Round a magnitude to 53 significant bits, to nearest, ties to even.\<close>

definition round_magnitude :: "nat \<Rightarrow> nat" where
  "round_magnitude a =
     (let s = excess_bits a; q = a div 2 ^ s; r = a mod 2 ^ s;
          q' = (if 2 ^ s < 2 * r \<or> (2 * r = 2 ^ s \<and> odd q) then q + 1 else q)
      in q' * 2 ^ s)"

text \<open>
  Rounding of an exact value \<open>k * 2^-1074\<close> to float64; a result of magnitude \<open>2^1024\<close>
  or more overflows to the infinity of its sign.
\<close>

definition round_even :: "int \<Rightarrow> float64" where
  "round_even k =
     (let v = int (round_magnitude (nat \<bar>k\<bar>))
      in if 2 ^ 2098 \<le> v then (if k < 0 then NegInf else PosInf)
         else Finite (if k < 0 then - v else v))"

text \<open>
  Go's \<open>+\<close> on float64. A zero operand returns the other operand, as IEEE 754 addition
  does for every float64.
\<close>

fun fadd :: "float64 \<Rightarrow> float64 \<Rightarrow> float64" where
  "fadd NaN _ = NaN"
| "fadd _ NaN = NaN"
| "fadd PosInf NegInf = NaN"
| "fadd NegInf PosInf = NaN"
| "fadd PosInf _ = PosInf"
| "fadd _ PosInf = PosInf"
| "fadd NegInf _ = NegInf"
| "fadd _ NegInf = NegInf"
| "fadd (Finite a) (Finite b) =
     (if a = 0 then Finite b else if b = 0 then Finite a else round_even (a + b))"

text \<open>\<open>math.IsNaN\<close>.\<close>

definition IsNaN :: "float64 \<Rightarrow> bool" where
  "IsNaN f = (f = NaN)"

text \<open>The float64 nearest to an integer: Go's conversion \<open>float64(n)\<close>, and integer literals.\<close>

definition float64_of_int :: "int \<Rightarrow> float64" where
  "float64_of_int n = round_even (n * 2 ^ 1074)"

type_synonym int64 = "64 word"

definition float64_of_int64 :: "int64 \<Rightarrow> float64" where
  "float64_of_int64 w = float64_of_int (sint w)"

text \<open>
  Go's conversion \<open>int64(f)\<close> truncates towards zero. For NaN, the infinities and values
  outside the int64 range Go leaves the result to the implementation; the value taken here
  is the one amd64 produces (the smallest int64).
\<close>

definition int64_of_float64 :: "float64 \<Rightarrow> int64" where
  "int64_of_float64 f =
     (case f of
        Finite k \<Rightarrow>
          (let t = (if k < 0 then - (\<bar>k\<bar> div 2 ^ 1074) else \<bar>k\<bar> div 2 ^ 1074)
           in if - (2 ^ 63) \<le> t \<and> t < 2 ^ 63 then word_of_int t else word_of_int (- (2 ^ 63)))
      | _ \<Rightarrow> word_of_int (- (2 ^ 63)))"

subsection \<open>Panics\<close>

text \<open>
  A panic is a value. A method that mutates its receiver returns the receiver's state
  together with the outcome: \<open>Inl\<close> the panic, \<open>Inr\<close> the returned value. The state returned
  beside a panic is the state at the moment of the panic.
\<close>

datatype panic = Panic string | IndexOutOfRange

text \<open>A \<open>for ... range\<close> loop over a slice whose body may panic.\<close>

fun forEach :: "('s \<Rightarrow> 'a \<Rightarrow> 's \<times> (panic + unit)) \<Rightarrow> 'a list \<Rightarrow> 's \<Rightarrow> 's \<times> (panic + unit)" where
  "forEach body [] s = (s, Inr ())"
| "forEach body (x # xs) s =
     (case body s x of
        (s', Inl p) \<Rightarrow> (s', Inl p)
      | (s', Inr _) \<Rightarrow> forEach body xs s')"

text \<open>\<open>%v\<close> of a non-negative int.\<close>

function decimal :: "nat \<Rightarrow> string" where
  "decimal n =
     (if n < 10 then [''0123456789'' ! n] else decimal (n div 10) @ [''0123456789'' ! (n mod 10)])"
  by pat_completeness auto
termination
  by (relation "measure id") auto

declare decimal.simps [simp del]

section \<open>Variables\<close>

type_synonym addr = nat

text \<open>
  \<open>variable.model\<close> is the pointer to the owning model, \<open>variable.index\<close> the position in
  the model's \<open>vars\<close>. A \<open>Var\<close> is a pointer to a variable struct; a model gives each of its
  variables its own index, so two such pointers are equal exactly when model and index
  are, and equality of \<open>Var\<close> values stands for equality of the pointers.
\<close>

record variable =
  model :: addr
  index :: nat

datatype Var =
    floatVariable variable float64 float64
  | intVariable variable int64 int64
  | boolVariable variable

fun Index :: "Var \<Rightarrow> nat" where
  "Index (floatVariable f lowerBound upperBound) = index f"
| "Index (intVariable i lowerBound upperBound) = index i"
| "Index (boolVariable b) = index b"

fun IsBool :: "Var \<Rightarrow> bool" where
  "IsBool (floatVariable f lowerBound upperBound) = False"
| "IsBool (intVariable i lowerBound upperBound) = False"
| "IsBool (boolVariable b) = True"

fun IsFloat :: "Var \<Rightarrow> bool" where
  "IsFloat (floatVariable f lowerBound upperBound) = True"
| "IsFloat (intVariable i lowerBound upperBound) = False"
| "IsFloat (boolVariable b) = False"

fun IsInt :: "Var \<Rightarrow> bool" where
  "IsInt (floatVariable f lowerBound upperBound) = False"
| "IsInt (intVariable i lowerBound upperBound) = True"
| "IsInt (boolVariable b) = True"

fun LowerBound :: "Var \<Rightarrow> float64" where
  "LowerBound (floatVariable f lowerBound upperBound) = lowerBound"
| "LowerBound (intVariable i lowerBound upperBound) = float64_of_int64 lowerBound"
| "LowerBound (boolVariable b) = Finite 0"

fun UpperBound :: "Var \<Rightarrow> float64" where
  "UpperBound (floatVariable f lowerBound upperBound) = upperBound"
| "UpperBound (intVariable i lowerBound upperBound) = float64_of_int64 upperBound"
| "UpperBound (boolVariable b) = float64_of_int 1"

text \<open>The model a variable points to.\<close>

fun Var_model :: "Var \<Rightarrow> addr" where
  "Var_model (floatVariable f lowerBound upperBound) = model f"
| "Var_model (intVariable i lowerBound upperBound) = model i"
| "Var_model (boolVariable b) = model b"

section \<open>Terms\<close>

record Term =
  variable :: Var
  coefficient :: float64

text \<open>\<open>quadraticTerm\<close>; its coefficient field is \<open>QuadraticTerm.coefficient\<close>. A primed name
  (\<open>coefficient'\<close>, \<open>terms'\<close>) is the parameter or local variable that Go calls by the
  unprimed name of a field.\<close>

record QuadraticTerm =
  variable1 :: Var
  variable2 :: Var
  coefficient :: float64

text \<open>
  \<open>makeLinearTermsUnique\<close>. The Go map \<open>uniqueTerms\<close> is an association list with one
  entry per key; the final \<open>range\<close> over the map reads it in list order. Go leaves that
  order open, and the statements about the result are about its set of entries.
\<close>

fun uniqueTerms_loop :: "(Var \<times> Term) list \<Rightarrow> Term list \<Rightarrow> (Var \<times> Term) list" where
  "uniqueTerms_loop uniqueTerms [] = uniqueTerms"
| "uniqueTerms_loop uniqueTerms (t # ts) =
     (if Term.coefficient t = Finite 0 then uniqueTerms_loop uniqueTerms ts
      else
        (case map_of uniqueTerms (Term.variable t) of
           None \<Rightarrow> uniqueTerms_loop (AList.update (Term.variable t) t uniqueTerms) ts
         | Some u \<Rightarrow>
             (let coefficient' = fadd (Term.coefficient u) (Term.coefficient t)
              in if coefficient' = Finite 0
                 then uniqueTerms_loop (AList.delete (Term.variable t) uniqueTerms) ts
                 else uniqueTerms_loop
                        (AList.update (Term.variable t)
                           \<lparr>Term.variable = Term.variable t, Term.coefficient = coefficient'\<rparr>
                           uniqueTerms) ts)))"

definition makeLinearTermsUnique :: "Term list \<Rightarrow> Term list" where
  "makeLinearTermsUnique terms' = map snd (uniqueTerms_loop [] terms')"

definition newQuadraticTerm :: "float64 \<Rightarrow> Var \<Rightarrow> Var \<Rightarrow> QuadraticTerm" where
  "newQuadraticTerm coefficient' variable1' variable2' =
     (if Index variable1' \<le> Index variable2'
      then \<lparr>variable1 = variable1', variable2 = variable2', coefficient = coefficient'\<rparr>
      else \<lparr>variable1 = variable2', variable2 = variable1', coefficient = coefficient'\<rparr>)"

text \<open>
  \<open>makeQuadraticTermsUnique\<close>. The map of maps is an association list of association
  lists; an inner map is shared with the outer one, so writing it writes the entry of \<open>v1\<close>.
  \<open>termCounter\<close> only sizes the result slice and is left out. \<open>quadraticTerms_body\<close> is the
  body of the loop: each \<open>continue\<close> ends it.
\<close>

definition quadraticTerms_body ::
  "(Var \<times> (Var \<times> QuadraticTerm) list) list \<Rightarrow> QuadraticTerm
     \<Rightarrow> (Var \<times> (Var \<times> QuadraticTerm) list) list" where
  "quadraticTerms_body terms' v =
     (let v1 = variable1 v; v2 = variable2 v
      in if QuadraticTerm.coefficient v = Finite 0 then terms'
         else
           (case map_of terms' v1 of
              None \<Rightarrow> AList.update v1 [(v2, v)] terms'
            | Some mqt \<Rightarrow>
                (case map_of mqt v2 of
                   None \<Rightarrow> AList.update v1 (AList.update v2 v mqt) terms'
                 | Some qt \<Rightarrow>
                     (let newCoef = fadd (QuadraticTerm.coefficient v) (QuadraticTerm.coefficient qt)
                      in if newCoef = Finite 0
                         then AList.update v1 (AList.delete v2 mqt) terms'
                         else AList.update v1
                                (AList.update v2
                                   \<lparr>variable1 = v1, variable2 = v2, coefficient = newCoef\<rparr> mqt)
                                terms'))))"

fun quadraticTerms_loop ::
  "(Var \<times> (Var \<times> QuadraticTerm) list) list \<Rightarrow> QuadraticTerm list
     \<Rightarrow> (Var \<times> (Var \<times> QuadraticTerm) list) list" where
  "quadraticTerms_loop terms' [] = terms'"
| "quadraticTerms_loop terms' (v # vs) = quadraticTerms_loop (quadraticTerms_body terms' v) vs"

definition makeQuadraticTermsUnique :: "QuadraticTerm list \<Rightarrow> QuadraticTerm list" where
  "makeQuadraticTermsUnique quadraticTerms' =
     concat (map (\<lambda>(k, mqt). map snd mqt) (quadraticTerms_loop [] quadraticTerms'))"

text \<open>
  The loop shared by \<open>objective.Term\<close> and \<open>constraint.Term\<close>: it compares indices and
  carries \<open>coefficient\<close> and \<open>definitions\<close>.
\<close>

fun Term_loop :: "nat \<Rightarrow> Term list \<Rightarrow> float64 \<times> nat \<Rightarrow> float64 \<times> nat" where
  "Term_loop i [] (coefficient', definitions) = (coefficient', definitions)"
| "Term_loop i (t # ts) (coefficient', definitions) =
     (if Index (Term.variable t) = i
      then Term_loop i ts (fadd coefficient' (Term.coefficient t), definitions + 1)
      else Term_loop i ts (coefficient', definitions))"

section \<open>Constraints\<close>

datatype Sense = LessThanOrEqual | Equal | GreaterThanOrEqual

record constraint =
  model :: addr
  terms :: "Term list"
  rightHandSide :: float64
  sense :: Sense

definition constraint_NewTerm :: "constraint \<Rightarrow> float64 \<Rightarrow> Var \<Rightarrow> constraint \<times> (panic + Term)" where
  "constraint_NewTerm c coefficient' variable' =
     (if IsNaN coefficient' then (c, Inl (Panic ''constraint term coefficient is NaN''))
      else
        (let term = \<lparr>Term.variable = variable', Term.coefficient = coefficient'\<rparr>
         in (c\<lparr>constraint.terms := constraint.terms c @ [term]\<rparr>, Inr term)))"

definition RightHandSide :: "constraint \<Rightarrow> float64" where
  "RightHandSide c = rightHandSide c"

definition constraint_Sense :: "constraint \<Rightarrow> Sense" where
  "constraint_Sense c = sense c"

definition constraint_Term :: "constraint \<Rightarrow> Var \<Rightarrow> Term \<times> nat" where
  "constraint_Term c variable' =
     (case Term_loop (Index variable') (constraint.terms c) (Finite 0, 0) of
        (coefficient', definitions) \<Rightarrow>
          (\<lparr>Term.variable = variable', Term.coefficient = coefficient'\<rparr>, definitions))"

definition constraint_Terms :: "constraint \<Rightarrow> Term list" where
  "constraint_Terms c = makeLinearTermsUnique (constraint.terms c)"

section \<open>Objective\<close>

record objective =
  terms :: "Term list"
  quadraticTerms :: "QuadraticTerm list"
  maximize :: bool

definition SetMaximize :: "objective \<Rightarrow> objective" where
  "SetMaximize ob = ob\<lparr>maximize := True\<rparr>"

definition SetMinimize :: "objective \<Rightarrow> objective" where
  "SetMinimize ob = ob\<lparr>maximize := False\<rparr>"

definition objective_NewTerm :: "objective \<Rightarrow> float64 \<Rightarrow> Var \<Rightarrow> objective \<times> (panic + Term)" where
  "objective_NewTerm ob coefficient' variable' =
     (if IsNaN coefficient' then (ob, Inl (Panic ''objective term coefficient is NaN''))
      else
        (let term = \<lparr>Term.variable = variable', Term.coefficient = coefficient'\<rparr>
         in (ob\<lparr>objective.terms := objective.terms ob @ [term]\<rparr>, Inr term)))"

definition NewQuadraticTerm ::
  "objective \<Rightarrow> float64 \<Rightarrow> Var \<Rightarrow> Var \<Rightarrow> objective \<times> (panic + QuadraticTerm)" where
  "NewQuadraticTerm ob coefficient' variable1' variable2' =
     (if IsNaN coefficient' then (ob, Inl (Panic ''constraint quadratic term coefficient is NaN''))
      else
        (let term = newQuadraticTerm coefficient' variable1' variable2'
         in (ob\<lparr>quadraticTerms := quadraticTerms ob @ [term]\<rparr>, Inr term)))"

definition IsMaximize :: "objective \<Rightarrow> bool" where
  "IsMaximize ob = maximize ob"

text \<open>A nil slice and an empty slice are both the empty list.\<close>

definition IsQuadratic :: "objective \<Rightarrow> bool" where
  "IsQuadratic ob = (quadraticTerms ob \<noteq> [] \<and> 0 < length (quadraticTerms ob))"

definition IsLinear :: "objective \<Rightarrow> bool" where
  "IsLinear ob = (\<not> IsQuadratic ob)"

definition objective_Term :: "objective \<Rightarrow> Var \<Rightarrow> Term \<times> nat" where
  "objective_Term ob variable' =
     (case Term_loop (Index variable') (objective.terms ob) (Finite 0, 0) of
        (coefficient', definitions) \<Rightarrow>
          (\<lparr>Term.variable = variable', Term.coefficient = coefficient'\<rparr>, definitions))"

definition objective_Terms :: "objective \<Rightarrow> Term list" where
  "objective_Terms ob = makeLinearTermsUnique (objective.terms ob)"

fun QuadraticTerm_loop ::
  "nat \<Rightarrow> nat \<Rightarrow> QuadraticTerm list \<Rightarrow> float64 \<times> nat \<Rightarrow> float64 \<times> nat" where
  "QuadraticTerm_loop i1 i2 [] (coefficient', definitions) = (coefficient', definitions)"
| "QuadraticTerm_loop i1 i2 (t # ts) (coefficient', definitions) =
     (if Index (variable1 t) = i1 \<and> Index (variable2 t) = i2
      then QuadraticTerm_loop i1 i2 ts
             (fadd coefficient' (QuadraticTerm.coefficient t), definitions + 1)
      else QuadraticTerm_loop i1 i2 ts (coefficient', definitions))"

definition objective_QuadraticTerm :: "objective \<Rightarrow> Var \<Rightarrow> Var \<Rightarrow> QuadraticTerm \<times> nat" where
  "objective_QuadraticTerm ob variable1' variable2' =
     (let (var1, var2) =
            (if Index variable1' \<le> Index variable2' then (variable1', variable2')
             else (variable2', variable1'))
      in case QuadraticTerm_loop (Index var1) (Index var2) (quadraticTerms ob) (Finite 0, 0) of
           (coefficient', definitions) \<Rightarrow> (newQuadraticTerm coefficient' var1 var2, definitions))"

definition objective_QuadraticTerms :: "objective \<Rightarrow> QuadraticTerm list" where
  "objective_QuadraticTerms ob = makeQuadraticTermsUnique (quadraticTerms ob)"

section \<open>Model\<close>

text \<open>
  \<open>this\<close> is the address at which the model struct lives; the variables and constraints
  of the model point back to it. \<open>constraintNames\<close> is keyed by the constraint pointer: a
  constraint sits at one position of \<open>constraints\<close> for its whole life, and that position is
  its key here and the handle \<open>NewConstraint\<close> returns. The objective, held by pointer in
  Go, is a field.
\<close>

record model =
  this :: addr
  objective :: objective
  constraintNames :: "nat \<rightharpoonup> string"
  varNames :: "Var \<rightharpoonup> string"
  constraints :: "constraint list"
  vars :: "Var list"

text \<open>\<open>NewModel\<close> allocates the struct; the argument is the address the allocator hands out.\<close>

definition NewModel :: "addr \<Rightarrow> model" where
  "NewModel a =
     \<lparr>this = a,
      objective = \<lparr>objective.terms = [], quadraticTerms = [], maximize = False\<rparr>,
      constraintNames = Map.empty,
      varNames = Map.empty,
      constraints = [],
      vars = []\<rparr>"

definition setConstraintName :: "model \<Rightarrow> nat \<Rightarrow> string \<Rightarrow> model" where
  "setConstraintName m constraint' name = m\<lparr>constraintNames := (constraintNames m)(constraint' \<mapsto> name)\<rparr>"

definition getConstraintName :: "model \<Rightarrow> nat \<Rightarrow> string" where
  "getConstraintName m constraint' =
     (case constraintNames m constraint' of Some name \<Rightarrow> name | None \<Rightarrow> '''')"

definition setVarName :: "model \<Rightarrow> Var \<Rightarrow> string \<Rightarrow> model" where
  "setVarName m variable' name = m\<lparr>varNames := (varNames m)(variable' \<mapsto> name)\<rparr>"

definition getVarName :: "model \<Rightarrow> Var \<Rightarrow> string" where
  "getVarName m variable' =
     (case varNames m variable' of Some name \<Rightarrow> name | None \<Rightarrow> '''')"

text \<open>
  The methods \<open>Name\<close>, \<open>SetName\<close> and \<open>String\<close> of the three variable structs and of
  \<open>constraint\<close>; the model argument is the one the receiver's \<open>model\<close> field points to.
\<close>

definition Var_Name :: "model \<Rightarrow> Var \<Rightarrow> string" where
  "Var_Name m v = getVarName m v"

definition Var_SetName :: "model \<Rightarrow> Var \<Rightarrow> string \<Rightarrow> model" where
  "Var_SetName m v name = setVarName m v name"

fun Var_String :: "model \<Rightarrow> Var \<Rightarrow> string" where
  "Var_String m (floatVariable f lowerBound upperBound) =
     (let name = Var_Name m (floatVariable f lowerBound upperBound)
      in if name = '''' then ''F'' @ decimal (Index (floatVariable f lowerBound upperBound)) else name)"
| "Var_String m (intVariable i lowerBound upperBound) =
     (let name = Var_Name m (intVariable i lowerBound upperBound)
      in if name = '''' then ''I'' @ decimal (Index (intVariable i lowerBound upperBound)) else name)"
| "Var_String m (boolVariable b) =
     (let name = Var_Name m (boolVariable b)
      in if name = '''' then ''B'' @ decimal (Index (boolVariable b)) else name)"

definition constraint_Name :: "model \<Rightarrow> nat \<Rightarrow> string" where
  "constraint_Name m c = getConstraintName m c"

definition constraint_SetName :: "model \<Rightarrow> nat \<Rightarrow> string \<Rightarrow> model" where
  "constraint_SetName m c name = setConstraintName m c name"

text \<open>
  \<open>Constraints\<close> and \<open>Vars\<close> as sequences of values; the slices behind them are in the
  section on slices.
\<close>

definition Constraints :: "model \<Rightarrow> constraint list" where
  "Constraints m = constraints m"

definition Objective :: "model \<Rightarrow> objective" where
  "Objective m = objective m"

definition Vars :: "model \<Rightarrow> Var list" where
  "Vars m = vars m"

definition NewBool :: "model \<Rightarrow> model \<times> Var" where
  "NewBool m =
     (let b = boolVariable \<lparr>variable.model = this m, index = length (vars m)\<rparr>
      in (m\<lparr>vars := vars m @ [b]\<rparr>, b))"

definition NewFloat :: "model \<Rightarrow> float64 \<Rightarrow> float64 \<Rightarrow> model \<times> (panic + Var)" where
  "NewFloat m lowerBound upperBound =
     (if IsNaN lowerBound then (m, Inl (Panic ''lower bound is NaN''))
      else if IsNaN upperBound then (m, Inl (Panic ''upper bound is NaN''))
      else
        (let f = floatVariable \<lparr>variable.model = this m, index = length (vars m)\<rparr>
                   lowerBound upperBound
         in (m\<lparr>vars := vars m @ [f]\<rparr>, Inr f)))"

definition NewInt :: "model \<Rightarrow> int64 \<Rightarrow> int64 \<Rightarrow> model \<times> Var" where
  "NewInt m lowerBound upperBound =
     (let i = intVariable \<lparr>variable.model = this m, index = length (vars m)\<rparr>
                lowerBound upperBound
      in (m\<lparr>vars := vars m @ [i]\<rparr>, i))"

definition NewConstraint :: "model \<Rightarrow> Sense \<Rightarrow> float64 \<Rightarrow> model \<times> (panic + nat)" where
  "NewConstraint m sense' rightHandSide' =
     (if IsNaN rightHandSide' then (m, Inl (Panic ''right hand side is NaN''))
      else
        (let constraint' =
               \<lparr>constraint.model = this m, constraint.terms = [],
                rightHandSide = rightHandSide', sense = sense'\<rparr>
         in (m\<lparr>constraints := constraints m @ [constraint']\<rparr>, Inr (length (constraints m)))))"

text \<open>
  A method called through a pointer the model holds: \<open>m.Objective().NewTerm\<close>,
  \<open>m.Objective().NewQuadraticTerm\<close>, and \<open>NewTerm\<close> on the constraint with handle \<open>h\<close>.
\<close>

definition model_objective_NewTerm :: "model \<Rightarrow> float64 \<Rightarrow> Var \<Rightarrow> model \<times> (panic + Term)" where
  "model_objective_NewTerm m coefficient' variable' =
     (case objective_NewTerm (objective m) coefficient' variable' of
        (ob, r) \<Rightarrow> (m\<lparr>objective := ob\<rparr>, r))"

definition model_objective_NewQuadraticTerm ::
  "model \<Rightarrow> float64 \<Rightarrow> Var \<Rightarrow> Var \<Rightarrow> model \<times> (panic + QuadraticTerm)" where
  "model_objective_NewQuadraticTerm m coefficient' variable1' variable2' =
     (case NewQuadraticTerm (objective m) coefficient' variable1' variable2' of
        (ob, r) \<Rightarrow> (m\<lparr>objective := ob\<rparr>, r))"

definition model_constraint_NewTerm ::
  "model \<Rightarrow> nat \<Rightarrow> float64 \<Rightarrow> Var \<Rightarrow> model \<times> (panic + Term)" where
  "model_constraint_NewTerm m h coefficient' variable' =
     (case constraint_NewTerm (constraints m ! h) coefficient' variable' of
        (c, r) \<Rightarrow> (m\<lparr>constraints := (constraints m)[h := c]\<rparr>, r))"

subsection \<open>Copy\<close>

text \<open>The body of the loop over \<open>m.Vars()\<close>.\<close>

definition copyVar :: "model \<Rightarrow> model \<Rightarrow> Var \<Rightarrow> model \<times> (panic + unit)" where
  "copyVar m copyModel v =
     (if IsFloat v then
        (case NewFloat copyModel (LowerBound v) (UpperBound v) of
           (copyModel', Inl p) \<Rightarrow> (copyModel', Inl p)
         | (copyModel', Inr copyVar') \<Rightarrow>
             (Var_SetName copyModel' copyVar' (Var_Name m v), Inr ()))
      else if IsBool v then
        (case NewBool copyModel of
           (copyModel', copyVar') \<Rightarrow> (Var_SetName copyModel' copyVar' (Var_Name m v), Inr ()))
      else if IsInt v then
        (case NewInt copyModel (int64_of_float64 (LowerBound v)) (int64_of_float64 (UpperBound v)) of
           (copyModel', copyVar') \<Rightarrow> (Var_SetName copyModel' copyVar' (Var_Name m v), Inr ()))
      else (copyModel, Inr ()))"

text \<open>The body of the loop over \<open>m.Objective().Terms()\<close>; \<open>vars'\<close> is \<open>copyModel.Vars()\<close>.\<close>

definition copyObjectiveTerm :: "Var list \<Rightarrow> model \<Rightarrow> Term \<Rightarrow> model \<times> (panic + unit)" where
  "copyObjectiveTerm vars' copyModel t =
     (if Index (Term.variable t) < length vars' then
        (case model_objective_NewTerm copyModel (Term.coefficient t)
                (vars' ! Index (Term.variable t)) of
           (copyModel', Inl p) \<Rightarrow> (copyModel', Inl p)
         | (copyModel', Inr _) \<Rightarrow> (copyModel', Inr ()))
      else (copyModel, Inl IndexOutOfRange))"

text \<open>The body of the loop over \<open>c.Terms()\<close>; \<open>h\<close> is the handle of \<open>copyConstraint\<close>.\<close>

definition copyConstraintTerm :: "Var list \<Rightarrow> nat \<Rightarrow> model \<Rightarrow> Term \<Rightarrow> model \<times> (panic + unit)" where
  "copyConstraintTerm vars' h copyModel t =
     (if Index (Term.variable t) < length vars' then
        (case model_constraint_NewTerm copyModel h (Term.coefficient t)
                (vars' ! Index (Term.variable t)) of
           (copyModel', Inl p) \<Rightarrow> (copyModel', Inl p)
         | (copyModel', Inr _) \<Rightarrow> (copyModel', Inr ()))
      else (copyModel, Inl IndexOutOfRange))"

text \<open>The body of the loop over \<open>m.Constraints()\<close>; \<open>i\<close> is the position of \<open>c\<close> in it.\<close>

definition copyConstraint :: "model \<Rightarrow> Var list \<Rightarrow> model \<Rightarrow> nat \<Rightarrow> model \<times> (panic + unit)" where
  "copyConstraint m vars' copyModel i =
     (let c = Constraints m ! i
      in case NewConstraint copyModel (constraint_Sense c) (RightHandSide c) of
           (copyModel', Inl p) \<Rightarrow> (copyModel', Inl p)
         | (copyModel', Inr h) \<Rightarrow>
             (case forEach (copyConstraintTerm vars' h) (constraint_Terms c) copyModel' of
                (copyModel'', Inl p) \<Rightarrow> (copyModel'', Inl p)
              | (copyModel'', Inr _) \<Rightarrow>
                  (constraint_SetName copyModel'' h (constraint_Name m i), Inr ())))"

text \<open>
  \<open>Copy\<close> leaves the receiver as it is and returns the new model, unless it panics; \<open>a\<close> is
  the address \<open>NewModel\<close> gets for the copy.
\<close>

definition Copy :: "addr \<Rightarrow> model \<Rightarrow> panic + model" where
  "Copy a m =
     (case forEach (copyVar m) (Vars m) (NewModel a) of
        (copyModel, Inl p) \<Rightarrow> Inl p
      | (copyModel, Inr _) \<Rightarrow>
          (let copyModel1 =
                 (if IsMaximize (Objective m)
                  then copyModel\<lparr>objective := SetMaximize (Objective copyModel)\<rparr>
                  else copyModel\<lparr>objective := SetMinimize (Objective copyModel)\<rparr>);
               vars' = Vars copyModel1
           in case forEach (copyObjectiveTerm vars') (objective_Terms (Objective m)) copyModel1 of
                (copyModel2, Inl p) \<Rightarrow> Inl p
              | (copyModel2, Inr _) \<Rightarrow>
                  (case forEach (copyConstraint m vars') [0..<length (Constraints m)] copyModel2 of
                     (copyModel3, Inl p) \<Rightarrow> Inl p
                   | (copyModel3, Inr _) \<Rightarrow> Inr copyModel3)))"

section \<open>Slices\<close>

text \<open>
  \<open>Vars\<close> and \<open>Constraints\<close> build a new slice with \<open>make\<close> and \<open>copy\<close>. What that means
  for a caller who writes to the result depends on which backing arrays are shared, so
  here a slice is its header (the address of the backing array, a length and a
  capacity; every slice of the package starts at the first element of its array) and the
  store holds the backing arrays. An element is \<open>Some\<close> interface value or \<open>None\<close> for nil.
\<close>

record slice =
  array :: addr
  len :: nat
  cap :: nat

type_synonym 'a store = "(addr \<times> 'a option list) list"

definition backing :: "'a store \<Rightarrow> addr \<Rightarrow> 'a option list" where
  "backing h a = (case map_of h a of None \<Rightarrow> [] | Some xs \<Rightarrow> xs)"

definition elems :: "'a store \<Rightarrow> slice \<Rightarrow> 'a option list" where
  "elems h s = take (len s) (backing h (array s))"

text \<open>The allocator: an address no array of the store has.\<close>

definition fresh :: "'a store \<Rightarrow> addr" where
  "fresh h = Suc (fold max (map fst h) 0)"

text \<open>\<open>make([]T, n)\<close>: \<open>n\<close> nil elements in a new array.\<close>

definition make_slice :: "nat \<Rightarrow> 'a store \<Rightarrow> 'a store \<times> slice" where
  "make_slice n h =
     (let a = fresh h
      in (AList.update a (replicate n None) h, \<lparr>array = a, len = n, cap = n\<rparr>))"

text \<open>\<open>copy(dst, src)\<close>.\<close>

definition copy_slice :: "slice \<Rightarrow> slice \<Rightarrow> 'a store \<Rightarrow> 'a store" where
  "copy_slice dst src h =
     (let n = min (len dst) (len src)
      in AList.update (array dst)
           (take n (backing h (array src)) @ drop n (backing h (array dst))) h)"

text \<open>\<open>s[i] = x\<close>.\<close>

definition slice_set :: "slice \<Rightarrow> nat \<Rightarrow> 'a option \<Rightarrow> 'a store \<Rightarrow> 'a store \<times> (panic + unit)" where
  "slice_set s i x h =
     (if i < len s
      then (AList.update (array s) ((backing h (array s))[i := x]) h, Inr ())
      else (h, Inl IndexOutOfRange))"

text \<open>
  \<open>append(s, x)\<close>: in place while the capacity lasts, else into a new, larger array. The
  new capacity is the runtime's choice; doubling is what it does for small slices.
\<close>

definition append_slice :: "slice \<Rightarrow> 'a option \<Rightarrow> 'a store \<Rightarrow> 'a store \<times> slice" where
  "append_slice s x h =
     (if len s < cap s
      then (AList.update (array s) ((backing h (array s))[len s := x]) h, s\<lparr>len := len s + 1\<rparr>)
      else
        (let a = fresh h; newcap = max (len s + 1) (2 * cap s)
         in (AList.update a (elems h s @ [x] @ replicate (newcap - (len s + 1)) None) h,
             \<lparr>array = a, len = len s + 1, cap = newcap\<rparr>)))"

text \<open>
  \<open>model.Vars\<close> and \<open>model.Constraints\<close> on the store; \<open>vars'\<close> and \<open>constraints'\<close> are the
  slice headers \<open>m.vars\<close> and \<open>m.constraints\<close>. A constraint in a slice is its pointer.
\<close>

definition Vars_slice :: "slice \<Rightarrow> Var store \<Rightarrow> Var store \<times> slice" where
  "Vars_slice vars' h =
     (case make_slice (len vars') h of
        (h1, variables) \<Rightarrow> (copy_slice variables vars' h1, variables))"

definition Constraints_slice :: "slice \<Rightarrow> nat store \<Rightarrow> nat store \<times> slice" where
  "Constraints_slice constraints' h =
     (case make_slice (len constraints') h of
        (h1, constraints'') \<Rightarrow> (copy_slice constraints'' constraints' h1, constraints''))"

text \<open>What a caller may do to a slice it holds: overwrite an entry or append.\<close>

datatype 'a mutation = Overwrite nat "'a option" | Append "'a option"

fun mutate :: "slice \<Rightarrow> 'a mutation list \<Rightarrow> 'a store \<Rightarrow> 'a store \<times> slice" where
  "mutate s [] h = (h, s)"
| "mutate s (Overwrite i x # ms) h =
     (case slice_set s i x h of
        (h', Inl p) \<Rightarrow> (h', s)
      | (h', Inr _) \<Rightarrow> mutate s ms h')"
| "mutate s (Append x # ms) h =
     (case append_slice s x h of (h', s') \<Rightarrow> mutate s' ms h')"

section \<open>Sequences of calls\<close>

text \<open>A sequence of \<open>NewTerm\<close> calls on one container; a call is its two arguments.\<close>

definition objective_NewTerm_call :: "objective \<Rightarrow> float64 \<times> Var \<Rightarrow> objective \<times> (panic + unit)" where
  "objective_NewTerm_call ob call =
     (case objective_NewTerm ob (fst call) (snd call) of
        (ob', Inl p) \<Rightarrow> (ob', Inl p)
      | (ob', Inr _) \<Rightarrow> (ob', Inr ()))"

definition constraint_NewTerm_call :: "constraint \<Rightarrow> float64 \<times> Var \<Rightarrow> constraint \<times> (panic + unit)" where
  "constraint_NewTerm_call c call =
     (case constraint_NewTerm c (fst call) (snd call) of
        (c', Inl p) \<Rightarrow> (c', Inl p)
      | (c', Inr _) \<Rightarrow> (c', Inr ()))"

text \<open>The coefficients supplied for \<open>v\<close>, added up in call order.\<close>

definition suppliedSum :: "(float64 \<times> Var) list \<Rightarrow> Var \<Rightarrow> float64" where
  "suppliedSum calls v = foldl fadd (Finite 0) (map fst (filter (\<lambda>call. snd call = v) calls))"

text \<open>The same sum over the raw terms of a container.\<close>

definition coefficientSum :: "Term list \<Rightarrow> Var \<Rightarrow> float64" where
  "coefficientSum ts v =
     foldl fadd (Finite 0) (map Term.coefficient (filter (\<lambda>t. Term.variable t = v) ts))"

definition canonical_entry :: "Var \<Rightarrow> float64 \<Rightarrow> Term option" where
  "canonical_entry v s =
     (if s = Finite 0 then None else Some \<lparr>Term.variable = v, Term.coefficient = s\<rparr>)"

text \<open>The raw terms that carry the index \<open>i\<close>.\<close>

definition termsAt :: "Term list \<Rightarrow> nat \<Rightarrow> Term list" where
  "termsAt ts i = filter (\<lambda>t. Index (Term.variable t) = i) ts"

text \<open>A sequence of variable creations; the result lists the returned variables in call order.\<close>

datatype NewVar_call = Call_NewFloat float64 float64 | Call_NewInt int64 int64 | Call_NewBool

fun NewVar :: "model \<Rightarrow> NewVar_call \<Rightarrow> model \<times> (panic + Var)" where
  "NewVar m (Call_NewFloat lowerBound upperBound) = NewFloat m lowerBound upperBound"
| "NewVar m (Call_NewInt lowerBound upperBound) =
     (case NewInt m lowerBound upperBound of (m', v) \<Rightarrow> (m', Inr v))"
| "NewVar m Call_NewBool = (case NewBool m of (m', v) \<Rightarrow> (m', Inr v))"

fun NewVar_calls :: "model \<Rightarrow> NewVar_call list \<Rightarrow> model \<times> (panic + Var list)" where
  "NewVar_calls m [] = (m, Inr [])"
| "NewVar_calls m (c # cs) =
     (case NewVar m c of
        (m', Inl p) \<Rightarrow> (m', Inl p)
      | (m', Inr v) \<Rightarrow>
          (case NewVar_calls m' cs of
             (m'', Inl p) \<Rightarrow> (m'', Inl p)
           | (m'', Inr vs) \<Rightarrow> (m'', Inr (v # vs))))"

fun NewVar_ok :: "NewVar_call \<Rightarrow> bool" where
  "NewVar_ok (Call_NewFloat lowerBound upperBound) = (\<not> IsNaN lowerBound \<and> \<not> IsNaN upperBound)"
| "NewVar_ok (Call_NewInt lowerBound upperBound) = True"
| "NewVar_ok Call_NewBool = True"

text \<open>The raw term a \<open>NewTerm\<close> call appends.\<close>

definition rawTerm :: "float64 \<times> Var \<Rightarrow> Term" where
  "rawTerm call = \<lparr>Term.variable = snd call, Term.coefficient = fst call\<rparr>"

section \<open>A small model\<close>

text \<open>
  The three bool variables \<open>NewBool\<close> creates first in the model at address 0, and the
  objective calls \<open>NewTerm(2, x)\<close>, \<open>NewTerm(1, x)\<close>, \<open>NewTerm(3, y)\<close>.
\<close>

definition var_x :: Var where
  "var_x = boolVariable \<lparr>variable.model = 0, index = 0\<rparr>"

definition var_y :: Var where
  "var_y = boolVariable \<lparr>variable.model = 0, index = 1\<rparr>"

definition var_z :: Var where
  "var_z = boolVariable \<lparr>variable.model = 0, index = 2\<rparr>"

definition example_calls :: "(float64 \<times> Var) list" where
  "example_calls = [(float64_of_int 2, var_x), (float64_of_int 1, var_x), (float64_of_int 3, var_y)]"

definition fresh_constraint :: constraint where
  "fresh_constraint =
     \<lparr>constraint.model = 0, constraint.terms = [], rightHandSide = float64_of_int 13,
      sense = LessThanOrEqual\<rparr>"

text \<open>The objective and a constraint after these calls.\<close>

definition example_objective :: objective where
  "example_objective = fst (forEach objective_NewTerm_call example_calls (objective (NewModel 0)))"

definition example_constraint :: constraint where
  "example_constraint = fst (forEach constraint_NewTerm_call example_calls fresh_constraint)"

text \<open>
  Two objectives with quadratic terms: after \<open>NewQuadraticTerm(1, x, y)\<close> and
  \<open>NewQuadraticTerm(-1, y, x)\<close>, and after \<open>NewQuadraticTerm(1, x, y)\<close> alone.
\<close>

definition cancelled_objective :: objective where
  "cancelled_objective =
     fst (NewQuadraticTerm
            (fst (NewQuadraticTerm (objective (NewModel 0)) (float64_of_int 1) var_x var_y))
            (float64_of_int (- 1)) var_y var_x)"

definition quadratic_objective :: objective where
  "quadratic_objective =
     fst (NewQuadraticTerm (objective (NewModel 0)) (float64_of_int 1) var_x var_y)"

text \<open>
  The variable a creation call builds at index \<open>i\<close> in the model at address \<open>a\<close>, and
  the variables a sequence of calls builds from index \<open>n\<close> on.
\<close>

fun newVariable :: "addr \<Rightarrow> nat \<Rightarrow> NewVar_call \<Rightarrow> Var" where
  "newVariable a i (Call_NewFloat lowerBound upperBound) =
     floatVariable \<lparr>variable.model = a, index = i\<rparr> lowerBound upperBound"
| "newVariable a i (Call_NewInt lowerBound upperBound) =
     intVariable \<lparr>variable.model = a, index = i\<rparr> lowerBound upperBound"
| "newVariable a i Call_NewBool = boolVariable \<lparr>variable.model = a, index = i\<rparr>"

definition newVariables :: "addr \<Rightarrow> nat \<Rightarrow> NewVar_call list \<Rightarrow> Var list" where
  "newVariables a n calls = map (\<lambda>(i, call). newVariable a i call) (zip [n..<n + length calls] calls)"

definition example_NewVar_calls :: "NewVar_call list" where
  "example_NewVar_calls =
     [Call_NewBool, Call_NewFloat (Finite 0) PosInf, Call_NewInt 0 10, Call_NewBool]"

text \<open>
  Calls whose exact sum float64 addition does not reach: \<open>2^53 + 1\<close> is no float64 and
  rounds to \<open>2^53\<close>.
\<close>

definition two53 :: float64 where
  "two53 = float64_of_int (2 ^ 53)"

definition minus_two53 :: float64 where
  "minus_two53 = float64_of_int (- (2 ^ 53))"

definition rounding_calls :: "(float64 \<times> Var) list" where
  "rounding_calls = [(two53, var_x), (float64_of_int 1, var_x), (minus_two53, var_x)]"

definition reordered_calls :: "(float64 \<times> Var) list" where
  "reordered_calls = [(two53, var_x), (minus_two53, var_x), (float64_of_int 1, var_x)]"

text \<open>The exact value of a finite float64, as an integer multiple of \<open>2^-1074\<close>.\<close>

definition exactValue :: "float64 \<Rightarrow> int" where
  "exactValue f = (case f of Finite k \<Rightarrow> k | _ \<Rightarrow> 0)"

definition exactSum :: "(float64 \<times> Var) list \<Rightarrow> Var \<Rightarrow> int" where
  "exactSum calls v = sum_list (map (exactValue \<circ> fst) (filter (\<lambda>call. snd call = v) calls))"

text \<open>
  A model with a quadratic objective: bool variables \<open>x\<close> and \<open>y\<close>, \<open>NewTerm(3, y)\<close> and
  \<open>NewQuadraticTerm(1, x, y)\<close>; and the two variables of its copy at address 1.
\<close>

definition quadratic_model :: model where
  "quadratic_model =
     (case NewBool (NewModel 0) of
        (m1, x) \<Rightarrow>
          (case NewBool m1 of
             (m2, y) \<Rightarrow>
               fst (model_objective_NewQuadraticTerm
                      (fst (model_objective_NewTerm m2 (float64_of_int 3) y))
                      (float64_of_int 1) x y)))"

definition copy_x :: Var where
  "copy_x = boolVariable \<lparr>variable.model = 1, index = 0\<rparr>"

definition copy_y :: Var where
  "copy_y = boolVariable \<lparr>variable.model = 1, index = 1\<rparr>"

text \<open>A model whose objective has no raw quadratic term.\<close>

definition no_quadratic :: "model \<Rightarrow> bool" where
  "no_quadratic m = (quadraticTerms (objective m) = [])"

text \<open>
  Two stores: the array of \<open>m.vars\<close> with \<open>x\<close> and \<open>y\<close>, and the array of
  \<open>m.constraints\<close> with two constraints and room for two more.
\<close>

definition example_store :: "Var store" where
  "example_store = [(1, [Some var_x, Some var_y])]"

definition example_vars_slice :: slice where
  "example_vars_slice = \<lparr>array = 1, len = 2, cap = 2\<rparr>"

definition example_constraint_store :: "nat store" where
  "example_constraint_store = [(1, [Some 0, Some 1, None, None])]"

definition example_constraints_slice :: slice where
  "example_constraints_slice = \<lparr>array = 1, len = 2, cap = 4\<rparr>"

text \<open>
  The raw quadratic terms stored for the ordered pair \<open>(v1, v2)\<close>, the float64 sum of
  their coefficients in declaration order, the lookup in the map of maps, the entry a sum
  leaves there, the shape of the map of maps (one entry per key, outside and inside), and
  the ordering a stored quadratic term keeps.
\<close>

definition pairTerms :: "QuadraticTerm list \<Rightarrow> Var \<Rightarrow> Var \<Rightarrow> QuadraticTerm list" where
  "pairTerms qs v1 v2 = filter (\<lambda>q. variable1 q = v1 \<and> variable2 q = v2) qs"

definition quadraticSum :: "QuadraticTerm list \<Rightarrow> Var \<Rightarrow> Var \<Rightarrow> float64" where
  "quadraticSum qs v1 v2 =
     foldl fadd (Finite 0) (map QuadraticTerm.coefficient (pairTerms qs v1 v2))"

definition lookup2 :: "(Var \<times> (Var \<times> QuadraticTerm) list) list \<Rightarrow> Var \<Rightarrow> Var \<Rightarrow> QuadraticTerm option" where
  "lookup2 T v1 v2 = (case map_of T v1 of None \<Rightarrow> None | Some mqt \<Rightarrow> map_of mqt v2)"

definition quadratic_entry :: "Var \<Rightarrow> Var \<Rightarrow> float64 \<Rightarrow> QuadraticTerm option" where
  "quadratic_entry v1 v2 s =
     (if s = Finite 0 then None
      else Some \<lparr>variable1 = v1, variable2 = v2, coefficient = s\<rparr>)"

definition nested_ok :: "(Var \<times> (Var \<times> QuadraticTerm) list) list \<Rightarrow> bool" where
  "nested_ok T =
     (distinct (map fst T) \<and> (\<forall>k mqt. map_of T k = Some mqt \<longrightarrow> distinct (map fst mqt)))"

definition ordered :: "QuadraticTerm \<Rightarrow> bool" where
  "ordered q = (Index (variable1 q) \<le> Index (variable2 q))"

section \<open>Properties of float64 addition\<close>

lemma fadd_zero_left: "fadd (Finite 0) x = x"
  by (cases x) simp_all

lemma fadd_zero_right: "fadd x (Finite 0) = x"
  by (cases x) simp_all

lemma fadd_commute: "fadd x y = fadd y x"
  by (cases x; cases y) (simp_all add: add.commute)

lemma excess_bits_le: "n < 2 ^ (53 + t) \<Longrightarrow> excess_bits n \<le> t"
proof (induction n arbitrary: t rule: excess_bits.induct)
  case (1 n)
  show ?case
  proof (cases "n < 2 ^ 53")
    case True
    then show ?thesis by (simp add: excess_bits.simps)
  next
    case False
    with "1.prems" have "t \<noteq> 0" by (cases t) auto
    then obtain u where t: "t = Suc u" by (cases t) auto
    have "(2::nat) ^ (53 + t) = 2 ^ (53 + u) * 2"
      unfolding t by (simp only: add_Suc_right power_Suc mult.commute)
    with "1.prems" have "n < 2 ^ (53 + u) * 2" by simp
    then have "n div 2 < 2 ^ (53 + u)" by (rule less_mult_imp_div_less)
    from "1.IH"[OF False this] False t show ?thesis
      by (simp add: excess_bits.simps[of n])
  qed
qed

lemma round_magnitude_exact:
  assumes "a < 2 ^ (53 + t)" and "2 ^ t dvd a"
  shows "round_magnitude a = a"
proof -
  let ?s = "excess_bits a"
  have st: "?s \<le> t" using assms(1) by (rule excess_bits_le)
  have "(2::nat) ^ ?s dvd 2 ^ t" using st by (simp add: le_imp_power_dvd)
  then have d: "(2::nat) ^ ?s dvd a" using assms(2) by (rule dvd_trans)
  then have r: "a mod 2 ^ ?s = 0" by simp
  from d have q: "a div 2 ^ ?s * 2 ^ ?s = a" by simp
  show ?thesis unfolding round_magnitude_def Let_def r using q by simp
qed

lemma round_even_exact:
  assumes "nat \<bar>k\<bar> < 2 ^ (53 + t)" and "2 ^ t dvd k" and "53 + t \<le> 2098"
  shows "round_even k = Finite k"
proof -
  let ?a = "nat \<bar>k\<bar>"
  have "(2::int) ^ t dvd \<bar>k\<bar>" using assms(2) by simp
  then have d: "(2::nat) ^ t dvd ?a"
    by (metis abs_ge_zero int_dvd_int_iff nat_0_le of_nat_numeral of_nat_power)
  have m: "round_magnitude ?a = ?a" using assms(1) d by (rule round_magnitude_exact)
  have "(2::nat) ^ (53 + t) \<le> 2 ^ 2098" using assms(3) by (intro power_increasing) auto
  with assms(1) have "?a < 2 ^ 2098" by linarith
  then have "int ?a < 2 ^ 2098"
    by (metis of_nat_less_iff of_nat_numeral of_nat_power)
  then have lt: "\<not> (2::int) ^ 2098 \<le> \<bar>k\<bar>" by simp
  have v: "(if k < 0 then - \<bar>k\<bar> else \<bar>k\<bar>) = k" by simp
  have "round_even k = (if 2 ^ 2098 \<le> \<bar>k\<bar> then (if k < 0 then NegInf else PosInf)
         else Finite (if k < 0 then - \<bar>k\<bar> else \<bar>k\<bar>))"
    unfolding round_even_def Let_def m by (simp del: power_numeral)
  then show ?thesis unfolding v using lt by (simp only: if_False)
qed

lemma float64_of_int_exact:
  assumes "\<bar>n\<bar> < 2 ^ 53"
  shows "float64_of_int n = Finite (n * 2 ^ 1074)"
proof -
  have "\<bar>n * 2 ^ 1074\<bar> = \<bar>n\<bar> * 2 ^ 1074" by (simp add: abs_mult del: power_numeral)
  also have "\<dots> < 2 ^ 53 * 2 ^ 1074" using assms by (rule mult_strict_right_mono) simp
  also have "\<dots> = (2::int) ^ (53 + 1074)" by (simp only: power_add)
  finally have "\<bar>n * 2 ^ 1074\<bar> < (2::int) ^ (53 + 1074)" .
  then have a: "nat \<bar>n * 2 ^ 1074\<bar> < 2 ^ (53 + 1074)"
    by (metis abs_ge_zero nat_less_iff of_nat_numeral of_nat_power)
  have b: "(2::int) ^ 1074 dvd n * 2 ^ 1074" by (simp del: power_numeral)
  show ?thesis unfolding float64_of_int_def
    by (rule round_even_exact[OF a b]) simp
qed

lemma float64_of_int_zero_iff:
  assumes "\<bar>n\<bar> < 2 ^ 53"
  shows "float64_of_int n = Finite 0 \<longleftrightarrow> n = 0"
  unfolding float64_of_int_exact[OF assms] by (simp del: power_numeral)

lemma fadd_float64_of_int:
  assumes "\<bar>a\<bar> < 2 ^ 53" and "\<bar>b\<bar> < 2 ^ 53" and "\<bar>a + b\<bar> < 2 ^ 53"
  shows "fadd (float64_of_int a) (float64_of_int b) = float64_of_int (a + b)"
proof -
  have "round_even (a * 2 ^ 1074 + b * 2 ^ 1074) = Finite ((a + b) * 2 ^ 1074)"
    using float64_of_int_exact[OF assms(3)] unfolding float64_of_int_def
    by (simp only: distrib_right)
  then show ?thesis
    unfolding float64_of_int_exact[OF assms(1)] float64_of_int_exact[OF assms(2)]
      float64_of_int_exact[OF assms(3)]
    by (simp add: distrib_right del: power_numeral)
qed


section \<open>Canonical linear terms\<close>

lemma Term_eta: "\<lparr>Term.variable = Term.variable t, Term.coefficient = Term.coefficient t\<rparr> = (t::Term)"
  by simp

lemma uniqueTerms_loop_invariant:
  assumes "distinct (map fst U)"
    and "\<And>v. map_of U v = canonical_entry v (S v)"
  shows "distinct (map fst (uniqueTerms_loop U ts)) \<and>
         (\<forall>v. map_of (uniqueTerms_loop U ts) v =
                canonical_entry v
                  (foldl fadd (S v) (map Term.coefficient (filter (\<lambda>t. Term.variable t = v) ts))))"
  using assms
proof (induction ts arbitrary: U S)
  case Nil
  then show ?case by simp
next
  case (Cons t ts)
  let ?v = "Term.variable t"
  let ?c = "Term.coefficient t"
  let ?S = "S(?v := fadd (S ?v) ?c)"
  have fold: "\<And>v. foldl fadd (S v) (map Term.coefficient (filter (\<lambda>t. Term.variable t = v) (t # ts)))
              = foldl fadd (?S v) (map Term.coefficient (filter (\<lambda>t. Term.variable t = v) ts))"
    by simp
  show ?case
  proof (cases "?c = Finite 0")
    case True
    then have "?S = S" by (simp add: fadd_zero_right)
    with Cons.IH[OF Cons.prems] True show ?thesis
      unfolding fold by simp
  next
    case nz: False
    show ?thesis
    proof (cases "map_of U ?v")
      case None
      then have "S ?v = Finite 0"
        using Cons.prems(2)[of ?v] by (simp add: canonical_entry_def split: if_splits)
      then have Sv: "?S ?v = ?c" by (simp add: fadd_zero_left)
      let ?U = "AList.update ?v t U"
      have d: "distinct (map fst ?U)" using Cons.prems(1) by (simp add: distinct_update)
      have m: "\<And>v. map_of ?U v = canonical_entry v (?S v)"
      proof -
        fix v
        show "map_of ?U v = canonical_entry v (?S v)"
        proof (cases "v = ?v")
          case True
          then show ?thesis using Sv nz
            by (simp add: update_conv' canonical_entry_def)
        next
          case False
          then show ?thesis using Cons.prems(2)[of v] by (simp add: update_conv')
        qed
      qed
      from Cons.IH[OF d m] nz None show ?thesis unfolding fold by simp
    next
      case (Some u)
      then have u: "u = \<lparr>Term.variable = ?v, Term.coefficient = S ?v\<rparr>"
        using Cons.prems(2)[of ?v] by (simp add: canonical_entry_def split: if_splits)
      then have cu: "Term.coefficient u = S ?v" by simp
      show ?thesis
      proof (cases "fadd (S ?v) ?c = Finite 0")
        case True
        let ?U = "AList.delete ?v U"
        have d: "distinct (map fst ?U)" using Cons.prems(1) by (simp add: distinct_delete)
        have m: "\<And>v. map_of ?U v = canonical_entry v (?S v)"
        proof -
          fix v
          show "map_of ?U v = canonical_entry v (?S v)"
          proof (cases "v = ?v")
            case True
            then show ?thesis using \<open>fadd (S ?v) ?c = Finite 0\<close>
              by (simp add: delete_conv' canonical_entry_def)
          next
            case False
            then show ?thesis using Cons.prems(2)[of v] by (simp add: delete_conv')
          qed
        qed
        from Cons.IH[OF d m] nz Some cu True show ?thesis unfolding fold by (simp add: Let_def)
      next
        case False
        let ?U = "AList.update ?v \<lparr>Term.variable = ?v, Term.coefficient = fadd (S ?v) ?c\<rparr> U"
        have d: "distinct (map fst ?U)" using Cons.prems(1) by (simp add: distinct_update)
        have m: "\<And>v. map_of ?U v = canonical_entry v (?S v)"
        proof -
          fix v
          show "map_of ?U v = canonical_entry v (?S v)"
          proof (cases "v = ?v")
            case True
            then show ?thesis using False
              by (simp add: update_conv' canonical_entry_def)
          next
            case neq: False
            then show ?thesis using Cons.prems(2)[of v] by (simp add: update_conv')
          qed
        qed
        from Cons.IH[OF d m] nz Some cu False show ?thesis unfolding fold by (simp add: Let_def)
      qed
    qed
  qed
qed

lemma makeLinearTermsUnique_map_of:
  "distinct (map fst (uniqueTerms_loop [] ts)) \<and>
   (\<forall>v. map_of (uniqueTerms_loop [] ts) v = canonical_entry v (coefficientSum ts v))"
  unfolding coefficientSum_def
  by (rule uniqueTerms_loop_invariant[where S = "\<lambda>_. Finite 0"])
     (simp_all add: canonical_entry_def)

lemma makeLinearTermsUnique_set:
  "set (makeLinearTermsUnique ts) =
     {\<lparr>Term.variable = v, Term.coefficient = coefficientSum ts v\<rparr> | v.
        coefficientSum ts v \<noteq> Finite 0}"
proof -
  let ?U = "uniqueTerms_loop [] ts"
  from makeLinearTermsUnique_map_of[of ts]
  have d: "distinct (map fst ?U)"
    and m: "\<And>v. map_of ?U v = canonical_entry v (coefficientSum ts v)" by auto
  have "set (map snd ?U) = ran (map_of ?U)" using d by (simp add: ran_distinct)
  also have "\<dots> = {\<lparr>Term.variable = v, Term.coefficient = coefficientSum ts v\<rparr> | v.
        coefficientSum ts v \<noteq> Finite 0}"
    unfolding ran_def m canonical_entry_def by auto
  finally show ?thesis by (simp add: makeLinearTermsUnique_def)
qed

lemma makeLinearTermsUnique_distinct:
  "distinct (map Term.variable (makeLinearTermsUnique ts))"
proof -
  let ?U = "uniqueTerms_loop [] ts"
  from makeLinearTermsUnique_map_of[of ts]
  have d: "distinct (map fst ?U)"
    and m: "\<And>v. map_of ?U v = canonical_entry v (coefficientSum ts v)" by auto
  have "\<And>k t. (k, t) \<in> set ?U \<Longrightarrow> Term.variable t = k"
  proof -
    fix k t assume "(k, t) \<in> set ?U"
    with d have "map_of ?U k = Some t" by simp
    then show "Term.variable t = k" unfolding m canonical_entry_def by (auto split: if_splits)
  qed
  then have "map (Term.variable \<circ> snd) ?U = map fst ?U" by (intro map_cong) auto
  then have eq: "map Term.variable (map snd ?U) = map fst ?U" by (simp only: map_map)
  show ?thesis unfolding makeLinearTermsUnique_def eq by (rule d)
qed

lemma coefficientSum_absent:
  "v \<notin> Term.variable ` set ts \<Longrightarrow> coefficientSum ts v = Finite 0"
proof -
  assume "v \<notin> Term.variable ` set ts"
  then have "filter (\<lambda>t. Term.variable t = v) ts = []" by (auto simp: filter_empty_conv)
  then show ?thesis by (simp add: coefficientSum_def)
qed

lemma round_even_not_NaN: "round_even k \<noteq> NaN"
  unfolding round_even_def Let_def by (simp del: power_numeral)

lemma float64_of_int_not_NaN: "\<not> IsNaN (float64_of_int n)"
  unfolding IsNaN_def float64_of_int_def by (rule round_even_not_NaN)

lemma objective_NewTerm_calls:
  "\<forall>call\<in>set calls. \<not> IsNaN (fst call) \<Longrightarrow>
   forEach objective_NewTerm_call calls ob =
     (ob\<lparr>objective.terms := objective.terms ob @ map rawTerm calls\<rparr>, Inr ())"
proof (induction calls arbitrary: ob)
  case Nil
  then show ?case by simp
next
  case (Cons call calls)
  then show ?case
    by (simp add: objective_NewTerm_call_def objective_NewTerm_def rawTerm_def Let_def)
qed

lemma constraint_NewTerm_calls:
  "\<forall>call\<in>set calls. \<not> IsNaN (fst call) \<Longrightarrow>
   forEach constraint_NewTerm_call calls c =
     (c\<lparr>constraint.terms := constraint.terms c @ map rawTerm calls\<rparr>, Inr ())"
proof (induction calls arbitrary: c)
  case Nil
  then show ?case by simp
next
  case (Cons call calls)
  then show ?case
    by (simp add: constraint_NewTerm_call_def constraint_NewTerm_def rawTerm_def Let_def)
qed

lemma coefficientSum_rawTerm: "coefficientSum (map rawTerm calls) v = suppliedSum calls v"
  by (simp add: coefficientSum_def suppliedSum_def filter_map comp_def rawTerm_def)

lemma suppliedSum_absent: "v \<notin> snd ` set calls \<Longrightarrow> suppliedSum calls v = Finite 0"
proof -
  assume "v \<notin> snd ` set calls"
  then have "filter (\<lambda>call. snd call = v) calls = []" by (auto simp: filter_empty_conv)
  then show ?thesis by (simp add: suppliedSum_def)
qed

lemma canonical_of_calls:
  "distinct (map Term.variable (makeLinearTermsUnique (map rawTerm calls))) \<and>
   set (makeLinearTermsUnique (map rawTerm calls)) =
     {\<lparr>Term.variable = v, Term.coefficient = suppliedSum calls v\<rparr> | v.
        v \<in> snd ` set calls \<and> suppliedSum calls v \<noteq> Finite 0}"
proof -
  have "{\<lparr>Term.variable = v, Term.coefficient = suppliedSum calls v\<rparr> | v.
          suppliedSum calls v \<noteq> Finite 0} =
        {\<lparr>Term.variable = v, Term.coefficient = suppliedSum calls v\<rparr> | v.
          v \<in> snd ` set calls \<and> suppliedSum calls v \<noteq> Finite 0}"
    using suppliedSum_absent by blast
  then show ?thesis
    by (simp add: makeLinearTermsUnique_distinct makeLinearTermsUnique_set coefficientSum_rawTerm)
qed

text \<open>
  C1, amended. After any sequence of \<open>NewTerm(c, v)\<close> calls on a container without raw
  terms (the objective or a constraint), none with a NaN coefficient, every call has
  returned, and \<open>Terms()\<close> holds at most one entry per variable. Its entries are exactly
  the variables of the calls whose coefficients, added in call order by float64 addition
  (each partial sum rounded), do not give zero, each with that float64 sum as its
  coefficient. A variable whose float64 sum is zero has no entry, whatever its single
  coefficients were.
\<close>

theorem terms_canonical_sum:
  assumes "objective.terms ob = []" and "constraint.terms c = []"
    and "\<forall>call\<in>set calls. \<not> IsNaN (fst call)"
  shows "(case forEach objective_NewTerm_call calls ob of
            (ob', r) \<Rightarrow>
              r = Inr () \<and> distinct (map Term.variable (objective_Terms ob')) \<and>
              set (objective_Terms ob') =
                {\<lparr>Term.variable = v, Term.coefficient = suppliedSum calls v\<rparr> | v.
                   v \<in> snd ` set calls \<and> suppliedSum calls v \<noteq> Finite 0}) \<and>
         (case forEach constraint_NewTerm_call calls c of
            (c', r) \<Rightarrow>
              r = Inr () \<and> distinct (map Term.variable (constraint_Terms c')) \<and>
              set (constraint_Terms c') =
                {\<lparr>Term.variable = v, Term.coefficient = suppliedSum calls v\<rparr> | v.
                   v \<in> snd ` set calls \<and> suppliedSum calls v \<noteq> Finite 0})"
  using canonical_of_calls[of calls]
  by (simp add: objective_NewTerm_calls[OF assms(3)] constraint_NewTerm_calls[OF assms(3)]
      assms(1,2) objective_Terms_def constraint_Terms_def)

theorem terms_canonical_sum_witness:
  "objective.terms (objective (NewModel 0)) = [] \<and>
   constraint.terms fresh_constraint = [] \<and>
   list_all (\<lambda>call. \<not> IsNaN (fst call)) example_calls \<and>
   set (objective_Terms (fst (forEach objective_NewTerm_call example_calls (objective (NewModel 0))))) =
     {\<lparr>Term.variable = var_x, Term.coefficient = float64_of_int 3\<rparr>,
      \<lparr>Term.variable = var_y, Term.coefficient = float64_of_int 3\<rparr>} \<and>
   set (constraint_Terms (fst (forEach constraint_NewTerm_call example_calls fresh_constraint))) =
     {\<lparr>Term.variable = var_x, Term.coefficient = float64_of_int 3\<rparr>,
      \<lparr>Term.variable = var_y, Term.coefficient = float64_of_int 3\<rparr>}"
proof -
  have h1: "objective.terms (objective (NewModel 0)) = []" by (simp add: NewModel_def)
  have h2: "constraint.terms fresh_constraint = []" by (simp add: fresh_constraint_def)
  have h3: "\<forall>call\<in>set example_calls. \<not> IsNaN (fst call)"
    by (simp add: example_calls_def float64_of_int_not_NaN)
  have x: "suppliedSum example_calls var_x = float64_of_int 3"
    by (simp add: suppliedSum_def example_calls_def var_x_def var_y_def fadd_zero_left
        fadd_float64_of_int)
  have y: "suppliedSum example_calls var_y = float64_of_int 3"
    by (simp add: suppliedSum_def example_calls_def var_x_def var_y_def fadd_zero_left)
  have s: "{\<lparr>Term.variable = v, Term.coefficient = suppliedSum example_calls v\<rparr> | v.
             v \<in> snd ` set example_calls \<and> suppliedSum example_calls v \<noteq> Finite 0} =
           {\<lparr>Term.variable = var_x, Term.coefficient = float64_of_int 3\<rparr>,
            \<lparr>Term.variable = var_y, Term.coefficient = float64_of_int 3\<rparr>}"
  proof -
    have vs: "snd ` set example_calls = {var_x, var_y}" by (auto simp: example_calls_def)
    have nz: "float64_of_int 3 \<noteq> Finite 0" by (simp add: float64_of_int_zero_iff)
    show ?thesis unfolding vs using x y nz by auto
  qed
  from terms_canonical_sum[OF h1 h2 h3] h1 h2 h3 show ?thesis
    unfolding s list_all_iff by (auto split: prod.splits)
qed

section \<open>The Term query\<close>

lemma Term_loop_sum:
  "Term_loop i ts (s, n) =
     (foldl fadd s (map Term.coefficient (termsAt ts i)), n + length (termsAt ts i))"
  by (induction ts arbitrary: s n) (simp_all add: termsAt_def)



lemma example_objective_terms: "objective.terms example_objective = map rawTerm example_calls"
  unfolding example_objective_def
  by (subst objective_NewTerm_calls)
     (simp_all add: example_calls_def float64_of_int_not_NaN NewModel_def)

lemma example_constraint_terms: "constraint.terms example_constraint = map rawTerm example_calls"
  unfolding example_constraint_def
  by (subst constraint_NewTerm_calls)
     (simp_all add: example_calls_def float64_of_int_not_NaN fresh_constraint_def)


section \<open>Terms with coefficient zero\<close>

lemma uniqueTerms_loop_append:
  "uniqueTerms_loop U (ts @ us) = uniqueTerms_loop (uniqueTerms_loop U ts) us"
  by (induction ts arbitrary: U) (simp_all add: Let_def split: option.splits)

lemma makeLinearTermsUnique_zero_term:
  "Term.coefficient t = Finite 0 \<Longrightarrow> makeLinearTermsUnique (ts @ [t]) = makeLinearTermsUnique ts"
  by (simp add: makeLinearTermsUnique_def uniqueTerms_loop_append)

lemma termsAt_append: "termsAt (ts @ us) i = termsAt ts i @ termsAt us i"
  by (simp add: termsAt_def)

lemma zero_sum_no_entry:
  assumes "coefficientSum ts x = Finite 0"
  shows "x \<notin> Term.variable ` set (makeLinearTermsUnique ts)"
proof
  assume "x \<in> Term.variable ` set (makeLinearTermsUnique ts)"
  then obtain t where "t \<in> set (makeLinearTermsUnique ts)" and "Term.variable t = x" by auto
  then show False using assms unfolding makeLinearTermsUnique_set by auto
qed

text \<open>
  C10. A raw term declared with coefficient 0 is counted by \<open>Term\<close> and invisible to
  \<open>Terms\<close>. On the objective and on a constraint, \<open>NewTerm(0, x)\<close> returns the term, raises
  the count \<open>Term(x)\<close> reports by one and leaves its summed coefficient as it was, and
  \<open>Terms()\<close> is what it was before the call; \<open>Terms()\<close> has no entry for \<open>x\<close> when the
  coefficients declared for \<open>x\<close> add up to zero. After a single \<open>NewTerm(0, x)\<close> on a
  container without raw terms, \<open>Term(x)\<close> is coefficient 0 with count 1 and \<open>Terms()\<close> is
  empty.
\<close>

theorem zero_term_counted_not_listed:
  "(case objective_NewTerm ob (Finite 0) x of
      (ob', r) \<Rightarrow>
        r = Inr \<lparr>Term.variable = x, Term.coefficient = Finite 0\<rparr> \<and>
        snd (objective_Term ob' x) = snd (objective_Term ob x) + 1 \<and>
        fst (objective_Term ob' x) = fst (objective_Term ob x) \<and>
        objective_Terms ob' = objective_Terms ob \<and>
        (coefficientSum (objective.terms ob') x = Finite 0 \<longrightarrow>
           x \<notin> Term.variable ` set (objective_Terms ob')) \<and>
        (objective.terms ob = [] \<longrightarrow>
           objective_Term ob' x = (\<lparr>Term.variable = x, Term.coefficient = Finite 0\<rparr>, 1) \<and>
           objective_Terms ob' = [])) \<and>
   (case constraint_NewTerm c (Finite 0) x of
      (c', r) \<Rightarrow>
        r = Inr \<lparr>Term.variable = x, Term.coefficient = Finite 0\<rparr> \<and>
        snd (constraint_Term c' x) = snd (constraint_Term c x) + 1 \<and>
        fst (constraint_Term c' x) = fst (constraint_Term c x) \<and>
        constraint_Terms c' = constraint_Terms c \<and>
        (coefficientSum (constraint.terms c') x = Finite 0 \<longrightarrow>
           x \<notin> Term.variable ` set (constraint_Terms c')) \<and>
        (constraint.terms c = [] \<longrightarrow>
           constraint_Term c' x = (\<lparr>Term.variable = x, Term.coefficient = Finite 0\<rparr>, 1) \<and>
           constraint_Terms c' = []))"
proof -
  let ?t = "\<lparr>Term.variable = x, Term.coefficient = Finite 0\<rparr>"
  have at: "\<And>ts. termsAt (ts @ [?t]) (Index x) = termsAt ts (Index x) @ [?t]"
    by (simp add: termsAt_def)
  have un: "\<And>ts. makeLinearTermsUnique (ts @ [?t]) = makeLinearTermsUnique ts"
    by (rule makeLinearTermsUnique_zero_term) simp
  have empty: "makeLinearTermsUnique [] = []" "makeLinearTermsUnique [?t] = []"
    by (simp_all add: makeLinearTermsUnique_def)
  have loop: "\<And>ts. Term_loop (Index x) (ts @ [?t]) (Finite 0, 0) =
      (fst (Term_loop (Index x) ts (Finite 0, 0)), snd (Term_loop (Index x) ts (Finite 0, 0)) + 1)"
    by (simp add: Term_loop_sum at fadd_zero_right)
  have ob: "objective_NewTerm ob (Finite 0) x =
      (ob\<lparr>objective.terms := objective.terms ob @ [?t]\<rparr>, Inr ?t)"
    by (simp add: objective_NewTerm_def IsNaN_def Let_def)
  have c: "constraint_NewTerm c (Finite 0) x =
      (c\<lparr>constraint.terms := constraint.terms c @ [?t]\<rparr>, Inr ?t)"
    by (simp add: constraint_NewTerm_def IsNaN_def Let_def)
  have A: "case objective_NewTerm ob (Finite 0) x of
      (ob', r) \<Rightarrow>
        r = Inr ?t \<and>
        snd (objective_Term ob' x) = snd (objective_Term ob x) + 1 \<and>
        fst (objective_Term ob' x) = fst (objective_Term ob x) \<and>
        objective_Terms ob' = objective_Terms ob \<and>
        (coefficientSum (objective.terms ob') x = Finite 0 \<longrightarrow>
           x \<notin> Term.variable ` set (objective_Terms ob')) \<and>
        (objective.terms ob = [] \<longrightarrow>
           objective_Term ob' x = (?t, 1) \<and> objective_Terms ob' = [])"
    unfolding ob
    by (simp add: objective_Term_def objective_Terms_def loop un empty zero_sum_no_entry
        split: prod.splits)
  have B: "case constraint_NewTerm c (Finite 0) x of
      (c', r) \<Rightarrow>
        r = Inr ?t \<and>
        snd (constraint_Term c' x) = snd (constraint_Term c x) + 1 \<and>
        fst (constraint_Term c' x) = fst (constraint_Term c x) \<and>
        constraint_Terms c' = constraint_Terms c \<and>
        (coefficientSum (constraint.terms c') x = Finite 0 \<longrightarrow>
           x \<notin> Term.variable ` set (constraint_Terms c')) \<and>
        (constraint.terms c = [] \<longrightarrow>
           constraint_Term c' x = (?t, 1) \<and> constraint_Terms c' = [])"
    unfolding c
    by (simp add: constraint_Term_def constraint_Terms_def loop un empty zero_sum_no_entry
        split: prod.splits)
  from A B show ?thesis by (rule conjI)
qed


theorem zero_term_counted_not_listed_witness:
  "objective.terms (objective (NewModel 0)) = [] \<and>
   constraint.terms fresh_constraint = [] \<and>
   objective_Term (fst (objective_NewTerm (objective (NewModel 0)) (Finite 0) var_x)) var_x =
     (\<lparr>Term.variable = var_x, Term.coefficient = Finite 0\<rparr>, 1) \<and>
   objective_Terms (fst (objective_NewTerm (objective (NewModel 0)) (Finite 0) var_x)) = [] \<and>
   coefficientSum
     (objective.terms (fst (objective_NewTerm (objective (NewModel 0)) (Finite 0) var_x))) var_x = Finite 0 \<and>
   var_x \<notin> Term.variable `
     set (objective_Terms (fst (objective_NewTerm (objective (NewModel 0)) (Finite 0) var_x))) \<and>
   constraint_Term (fst (constraint_NewTerm fresh_constraint (Finite 0) var_x)) var_x =
     (\<lparr>Term.variable = var_x, Term.coefficient = Finite 0\<rparr>, 1) \<and>
   constraint_Terms (fst (constraint_NewTerm fresh_constraint (Finite 0) var_x)) = [] \<and>
   coefficientSum
     (constraint.terms (fst (constraint_NewTerm fresh_constraint (Finite 0) var_x))) var_x = Finite 0 \<and>
   var_x \<notin> Term.variable `
     set (constraint_Terms (fst (constraint_NewTerm fresh_constraint (Finite 0) var_x)))"
proof -
  have h1: "objective.terms (objective (NewModel 0)) = []" by (simp add: NewModel_def)
  have h2: "constraint.terms fresh_constraint = []" by (simp add: fresh_constraint_def)
  have s1: "coefficientSum
     (objective.terms (fst (objective_NewTerm (objective (NewModel 0)) (Finite 0) var_x))) var_x = Finite 0"
    by (simp add: coefficientSum_def objective_NewTerm_def IsNaN_def NewModel_def Let_def)
  have s2: "coefficientSum
     (constraint.terms (fst (constraint_NewTerm fresh_constraint (Finite 0) var_x))) var_x = Finite 0"
    by (simp add: coefficientSum_def constraint_NewTerm_def IsNaN_def fresh_constraint_def Let_def)
  from zero_term_counted_not_listed[where ob = "objective (NewModel 0)" and x = var_x
      and c = fresh_constraint]
  show ?thesis unfolding case_prod_beta using h1 h2 s1 s2 by blast
qed

section \<open>Linear and quadratic objectives\<close>

lemma cancelled_objective_quadraticTerms:
  "quadraticTerms cancelled_objective =
     [\<lparr>variable1 = var_x, variable2 = var_y, coefficient = float64_of_int 1\<rparr>,
      \<lparr>variable1 = var_x, variable2 = var_y, coefficient = float64_of_int (- 1)\<rparr>]"
  by (simp add: cancelled_objective_def NewQuadraticTerm_def newQuadraticTerm_def NewModel_def
      float64_of_int_not_NaN Let_def var_x_def var_y_def)

lemma quadratic_objective_quadraticTerms:
  "quadraticTerms quadratic_objective =
     [\<lparr>variable1 = var_x, variable2 = var_y, coefficient = float64_of_int 1\<rparr>]"
  by (simp add: quadratic_objective_def NewQuadraticTerm_def newQuadraticTerm_def NewModel_def
      float64_of_int_not_NaN Let_def var_x_def var_y_def)

text \<open>
  C4, as stated, fails. After \<open>NewQuadraticTerm(1, x, y)\<close> and \<open>NewQuadraticTerm(-1, y, x)\<close>
  the canonical quadratic terms are empty, and \<open>IsQuadratic\<close> is true and \<open>IsLinear\<close> false.
\<close>

theorem IsQuadratic_counterexample:
  "IsQuadratic cancelled_objective \<and> \<not> IsLinear cancelled_objective \<and>
   objective_QuadraticTerms cancelled_objective = []"
  by (simp add: IsQuadratic_def IsLinear_def objective_QuadraticTerms_def
      makeQuadraticTermsUnique_def quadraticTerms_body_def cancelled_objective_quadraticTerms
      float64_of_int_zero_iff fadd_float64_of_int Let_def delete_simps var_x_def var_y_def)

lemma makeQuadraticTermsUnique_Nil: "makeQuadraticTermsUnique [] = []"
  by (simp add: makeQuadraticTermsUnique_def)

text \<open>
  C4, amended. \<open>IsQuadratic\<close> is true exactly when at least one quadratic term has been
  declared, whatever the declared coefficients add up to; \<open>IsLinear\<close> is its negation; and
  an objective whose canonical quadratic terms are not empty is quadratic.
\<close>

theorem IsQuadratic_raw:
  "(IsQuadratic ob \<longleftrightarrow> quadraticTerms ob \<noteq> []) \<and>
   IsLinear ob = (\<not> IsQuadratic ob) \<and>
   (objective_QuadraticTerms ob \<noteq> [] \<longrightarrow> IsQuadratic ob)"
proof (intro conjI impI)
  show "IsQuadratic ob \<longleftrightarrow> quadraticTerms ob \<noteq> []" by (auto simp: IsQuadratic_def)
  show "IsLinear ob = (\<not> IsQuadratic ob)" by (simp add: IsLinear_def)
next
  assume "objective_QuadraticTerms ob \<noteq> []"
  then have "quadraticTerms ob \<noteq> []"
    by (auto simp: objective_QuadraticTerms_def makeQuadraticTermsUnique_Nil)
  then show "IsQuadratic ob" by (auto simp: IsQuadratic_def)
qed

theorem IsQuadratic_raw_witness:
  "objective_QuadraticTerms quadratic_objective =
     [\<lparr>variable1 = var_x, variable2 = var_y, coefficient = float64_of_int 1\<rparr>] \<and>
   IsQuadratic quadratic_objective \<and> \<not> IsLinear quadratic_objective"
proof -
  have q: "objective_QuadraticTerms quadratic_objective =
     [\<lparr>variable1 = var_x, variable2 = var_y, coefficient = float64_of_int 1\<rparr>]"
    by (simp add: objective_QuadraticTerms_def makeQuadraticTermsUnique_def quadraticTerms_body_def
        quadratic_objective_quadraticTerms float64_of_int_zero_iff Let_def)
  then have "objective_QuadraticTerms quadratic_objective \<noteq> []" by simp
  with IsQuadratic_raw[of quadratic_objective] q show ?thesis by blast
qed

section \<open>Variable indices\<close>

lemma Index_newVariable: "Index (newVariable a i call) = i"
  by (cases call) simp_all

lemma NewVar_newVariable:
  "NewVar_ok call \<Longrightarrow>
   NewVar m call =
     (m\<lparr>vars := vars m @ [newVariable (this m) (length (vars m)) call]\<rparr>,
      Inr (newVariable (this m) (length (vars m)) call))"
  by (cases call) (simp_all add: NewFloat_def NewInt_def NewBool_def Let_def)

lemma newVariables_Cons:
  "newVariables a n (call # calls) = newVariable a n call # newVariables a (Suc n) calls"
proof -
  have "[n..<n + length (call # calls)] = n # [Suc n..<Suc n + length calls]"
    by (subst upt_rec) simp
  then show ?thesis by (simp add: newVariables_def)
qed

lemma NewVar_calls_newVariables:
  "\<forall>call\<in>set calls. NewVar_ok call \<Longrightarrow>
   NewVar_calls m calls =
     (m\<lparr>vars := vars m @ newVariables (this m) (length (vars m)) calls\<rparr>,
      Inr (newVariables (this m) (length (vars m)) calls))"
proof (induction calls arbitrary: m)
  case Nil
  then show ?case by (simp add: newVariables_def)
next
  case (Cons call calls)
  then show ?case
    by (simp add: NewVar_newVariable newVariables_Cons)
qed

lemma length_newVariables: "length (newVariables a n calls) = length calls"
  by (simp add: newVariables_def)

lemma nth_newVariables:
  "k < length calls \<Longrightarrow> newVariables a n calls ! k = newVariable a (n + k) (calls ! k)"
  by (simp add: newVariables_def)

lemma map_Index_newVariables: "map Index (newVariables a n calls) = [n..<n + length calls]"
  by (rule nth_equalityI) (simp_all add: length_newVariables nth_newVariables Index_newVariable)

lemma newVariables_Nil: "newVariables a n [] = []"
  by (simp add: newVariables_def)

lemma take_newVariables: "take k (newVariables a n calls) = newVariables a n (take k calls)"
proof (induction calls arbitrary: n k)
  case Nil
  then show ?case by (simp add: newVariables_Nil)
next
  case (Cons call calls)
  then show ?case by (cases k) (simp_all add: newVariables_Cons newVariables_Nil)
qed

text \<open>
  C5. A sequence of \<open>n\<close> creation calls (\<open>NewFloat\<close> without NaN bound, \<open>NewInt\<close>,
  \<open>NewBool\<close>, in any mix) on a new model returns the model's variables in call order;
  their indices are \<open>0, 1, ..., n-1\<close>, the variable at position \<open>k\<close> is the one call \<open>k\<close>
  built with index \<open>k\<close>, and after the first \<open>k\<close> calls the model holds the first \<open>k\<close> of
  them: a later call leaves every earlier variable and index as it is.
\<close>

theorem variable_indices_dense:
  assumes "\<forall>call\<in>set calls. NewVar_ok call"
  shows "case NewVar_calls (NewModel a) calls of
           (m, r) \<Rightarrow>
             r = Inr (vars m) \<and>
             length (vars m) = length calls \<and>
             map Index (vars m) = [0..<length calls] \<and>
             (\<forall>k<length calls. vars m ! k = newVariable a k (calls ! k)) \<and>
             (\<forall>k\<le>length calls.
                vars (fst (NewVar_calls (NewModel a) (take k calls))) = take k (vars m))"
proof -
  have ok: "\<And>k. \<forall>call\<in>set (take k calls). NewVar_ok call"
    using assms by (auto dest: in_set_takeD)
  have m0: "vars (NewModel a) = []" "this (NewModel a) = a" by (simp_all add: NewModel_def)
  show ?thesis
    unfolding NewVar_calls_newVariables[OF assms]
    by (simp add: NewVar_calls_newVariables[OF ok] m0 length_newVariables nth_newVariables
        map_Index_newVariables take_newVariables)
qed

theorem variable_indices_dense_witness:
  "list_all NewVar_ok example_NewVar_calls \<and>
   map Index (vars (fst (NewVar_calls (NewModel 0) example_NewVar_calls))) = [0, 1, 2, 3] \<and>
   snd (NewVar_calls (NewModel 0) example_NewVar_calls) =
     Inr [boolVariable \<lparr>variable.model = 0, index = 0\<rparr>,
          floatVariable \<lparr>variable.model = 0, index = 1\<rparr> (Finite 0) PosInf,
          intVariable \<lparr>variable.model = 0, index = 2\<rparr> 0 10,
          boolVariable \<lparr>variable.model = 0, index = 3\<rparr>]"
proof -
  have h: "\<forall>call\<in>set example_NewVar_calls. NewVar_ok call"
    by (simp add: example_NewVar_calls_def IsNaN_def)
  have l: "length example_NewVar_calls = 4" by (simp add: example_NewVar_calls_def)
  have u: "[0..<4] = [0, 1, 2, 3::nat]" by (simp add: upt_conv_Cons)
  obtain m r where mr: "NewVar_calls (NewModel 0) example_NewVar_calls = (m, r)"
    by (cases "NewVar_calls (NewModel 0) example_NewVar_calls")
  from variable_indices_dense[OF h, of 0] have
    r: "r = Inr (vars m)" and i: "map Index (vars m) = [0, 1, 2, 3]" and n: "length (vars m) = 4"
    and k: "\<forall>k<4. vars m ! k = newVariable 0 k (example_NewVar_calls ! k)"
    unfolding mr l u by auto
  have "vars m = [vars m ! 0, vars m ! 1, vars m ! 2, vars m ! 3]"
    using n by (intro nth_equalityI) (auto simp: nth_Cons' less_Suc_eq numeral_eq_Suc)
  also have "\<dots> = [boolVariable \<lparr>variable.model = 0, index = 0\<rparr>,
          floatVariable \<lparr>variable.model = 0, index = 1\<rparr> (Finite 0) PosInf,
          intVariable \<lparr>variable.model = 0, index = 2\<rparr> 0 10,
          boolVariable \<lparr>variable.model = 0, index = 3\<rparr>]"
    using k by (simp add: example_NewVar_calls_def)
  finally have v: "vars m = [boolVariable \<lparr>variable.model = 0, index = 0\<rparr>,
          floatVariable \<lparr>variable.model = 0, index = 1\<rparr> (Finite 0) PosInf,
          intVariable \<lparr>variable.model = 0, index = 2\<rparr> 0 10,
          boolVariable \<lparr>variable.model = 0, index = 3\<rparr>]" .
  from h r i v show ?thesis unfolding mr list_all_iff by simp
qed

section \<open>NaN inputs\<close>

text \<open>
  C6. A construction with a NaN input (the coefficient of a term or quadratic term, a
  bound of a float variable, the right-hand side of a constraint) panics and leaves its
  container as it was: no term, variable or constraint is added. With inputs that are
  not NaN the call returns the new entity, and the container is the old one with exactly
  that entity appended.
\<close>

theorem NaN_rejected_before_linking:
  "(IsNaN coef \<longrightarrow>
      objective_NewTerm ob coef v = (ob, Inl (Panic ''objective term coefficient is NaN'')) \<and>
      NewQuadraticTerm ob coef v1 v2 =
        (ob, Inl (Panic ''constraint quadratic term coefficient is NaN'')) \<and>
      constraint_NewTerm c coef v = (c, Inl (Panic ''constraint term coefficient is NaN'')) \<and>
      model_constraint_NewTerm m h coef v =
        (m, Inl (Panic ''constraint term coefficient is NaN''))) \<and>
   (IsNaN lb \<longrightarrow> NewFloat m lb ub = (m, Inl (Panic ''lower bound is NaN''))) \<and>
   (\<not> IsNaN lb \<and> IsNaN ub \<longrightarrow> NewFloat m lb ub = (m, Inl (Panic ''upper bound is NaN''))) \<and>
   (IsNaN rhs \<longrightarrow> NewConstraint m s rhs = (m, Inl (Panic ''right hand side is NaN''))) \<and>
   (\<not> IsNaN coef \<longrightarrow>
      objective_NewTerm ob coef v =
        (ob\<lparr>objective.terms :=
              objective.terms ob @ [\<lparr>Term.variable = v, Term.coefficient = coef\<rparr>]\<rparr>,
         Inr \<lparr>Term.variable = v, Term.coefficient = coef\<rparr>) \<and>
      NewQuadraticTerm ob coef v1 v2 =
        (ob\<lparr>quadraticTerms := quadraticTerms ob @ [newQuadraticTerm coef v1 v2]\<rparr>,
         Inr (newQuadraticTerm coef v1 v2)) \<and>
      constraint_NewTerm c coef v =
        (c\<lparr>constraint.terms :=
             constraint.terms c @ [\<lparr>Term.variable = v, Term.coefficient = coef\<rparr>]\<rparr>,
         Inr \<lparr>Term.variable = v, Term.coefficient = coef\<rparr>)) \<and>
   (\<not> IsNaN lb \<and> \<not> IsNaN ub \<longrightarrow>
      NewFloat m lb ub =
        (m\<lparr>vars := vars m @
              [floatVariable \<lparr>variable.model = this m, index = length (vars m)\<rparr> lb ub]\<rparr>,
         Inr (floatVariable \<lparr>variable.model = this m, index = length (vars m)\<rparr> lb ub))) \<and>
   (\<not> IsNaN rhs \<longrightarrow>
      NewConstraint m s rhs =
        (m\<lparr>constraints := constraints m @
              [\<lparr>constraint.model = this m, constraint.terms = [], rightHandSide = rhs,
                sense = s\<rparr>]\<rparr>,
         Inr (length (constraints m))))"
proof -
  have l: "IsNaN coef \<Longrightarrow> (constraints m)[h := constraints m ! h] = constraints m"
    by simp
  show ?thesis
    by (simp add: objective_NewTerm_def NewQuadraticTerm_def constraint_NewTerm_def
      model_constraint_NewTerm_def NewFloat_def NewConstraint_def Let_def)
qed

theorem NaN_rejected_before_linking_witness:
  "IsNaN NaN \<and> \<not> IsNaN (float64_of_int 2) \<and>
   objective_NewTerm example_objective NaN var_x =
     (example_objective, Inl (Panic ''objective term coefficient is NaN'')) \<and>
   length (objective.terms (fst (objective_NewTerm example_objective NaN var_x))) = 3 \<and>
   length (objective.terms (fst (objective_NewTerm example_objective (float64_of_int 2) var_x))) = 4 \<and>
   length (quadraticTerms (fst (NewQuadraticTerm example_objective NaN var_x var_y))) = 0 \<and>
   length (quadraticTerms (fst (NewQuadraticTerm example_objective (float64_of_int 2) var_x var_y))) = 1 \<and>
   length (constraint.terms (fst (constraint_NewTerm example_constraint NaN var_x))) = 3 \<and>
   length (constraint.terms (fst (constraint_NewTerm example_constraint (float64_of_int 2) var_x))) = 4 \<and>
   length (vars (fst (NewFloat (NewModel 0) NaN (float64_of_int 2)))) = 0 \<and>
   length (vars (fst (NewFloat (NewModel 0) (float64_of_int 2) NaN))) = 0 \<and>
   length (vars (fst (NewFloat (NewModel 0) (float64_of_int 2) (float64_of_int 2)))) = 1 \<and>
   length (constraints (fst (NewConstraint (NewModel 0) Equal NaN))) = 0 \<and>
   length (constraints (fst (NewConstraint (NewModel 0) Equal (float64_of_int 2)))) = 1"
proof -
  have n: "IsNaN NaN" by (simp add: IsNaN_def)
  have f: "\<not> IsNaN (float64_of_int 2)" by (rule float64_of_int_not_NaN)
  have t: "length (objective.terms example_objective) = 3"
    "length (constraint.terms example_constraint) = 3"
    by (simp_all add: example_objective_terms example_constraint_terms example_calls_def)
  have q: "quadraticTerms example_objective = []"
    unfolding example_objective_def
    by (subst objective_NewTerm_calls)
       (simp_all add: example_calls_def float64_of_int_not_NaN NewModel_def)
  have m: "vars (NewModel 0) = []" "constraints (NewModel 0) = []" by (simp_all add: NewModel_def)
  note A = NaN_rejected_before_linking[where coef = NaN and ob = example_objective
      and c = example_constraint and m = "NewModel 0" and lb = NaN and rhs = NaN and v = var_x
      and ?v1.0 = var_x and ?v2.0 = var_y and ub = "float64_of_int 2" and s = Equal]
  note B = NaN_rejected_before_linking[where coef = "float64_of_int 2" and ob = example_objective
      and c = example_constraint and m = "NewModel 0" and lb = "float64_of_int 2"
      and rhs = "float64_of_int 2" and v = var_x
      and ?v1.0 = var_x and ?v2.0 = var_y and ub = NaN and s = Equal]
  note C = NaN_rejected_before_linking[where coef = "float64_of_int 2" and ob = example_objective
      and c = example_constraint and m = "NewModel 0" and lb = "float64_of_int 2"
      and rhs = "float64_of_int 2" and v = var_x
      and ?v1.0 = var_x and ?v2.0 = var_y and ub = "float64_of_int 2" and s = Equal]
  from A n f have a:
    "objective_NewTerm example_objective NaN var_x =
       (example_objective, Inl (Panic ''objective term coefficient is NaN''))"
    "NewQuadraticTerm example_objective NaN var_x var_y =
        (example_objective, Inl (Panic ''constraint quadratic term coefficient is NaN''))"
    "constraint_NewTerm example_constraint NaN var_x =
        (example_constraint, Inl (Panic ''constraint term coefficient is NaN''))"
    "NewFloat (NewModel 0) NaN (float64_of_int 2) = (NewModel 0, Inl (Panic ''lower bound is NaN''))"
    "NewConstraint (NewModel 0) Equal NaN = (NewModel 0, Inl (Panic ''right hand side is NaN''))"
    by blast+
  from B n f have b:
    "NewFloat (NewModel 0) (float64_of_int 2) NaN = (NewModel 0, Inl (Panic ''upper bound is NaN''))"
    by blast
  from C f have c:
    "fst (objective_NewTerm example_objective (float64_of_int 2) var_x) =
       example_objective\<lparr>objective.terms := objective.terms example_objective @
          [\<lparr>Term.variable = var_x, Term.coefficient = float64_of_int 2\<rparr>]\<rparr>"
    "fst (NewQuadraticTerm example_objective (float64_of_int 2) var_x var_y) =
       example_objective\<lparr>quadraticTerms := quadraticTerms example_objective @
          [newQuadraticTerm (float64_of_int 2) var_x var_y]\<rparr>"
    "fst (constraint_NewTerm example_constraint (float64_of_int 2) var_x) =
       example_constraint\<lparr>constraint.terms := constraint.terms example_constraint @
          [\<lparr>Term.variable = var_x, Term.coefficient = float64_of_int 2\<rparr>]\<rparr>"
    "fst (NewFloat (NewModel 0) (float64_of_int 2) (float64_of_int 2)) =
       (NewModel 0)\<lparr>vars := vars (NewModel 0) @
              [floatVariable \<lparr>variable.model = this (NewModel 0), index = length (vars (NewModel 0))\<rparr>
                 (float64_of_int 2) (float64_of_int 2)]\<rparr>"
    "fst (NewConstraint (NewModel 0) Equal (float64_of_int 2)) =
       (NewModel 0)\<lparr>constraints := constraints (NewModel 0) @
              [\<lparr>constraint.model = this (NewModel 0), constraint.terms = [],
                rightHandSide = float64_of_int 2, sense = Equal\<rparr>]\<rparr>"
    by simp_all
  show ?thesis unfolding a b c using n f t q m by simp
qed

section \<open>Names\<close>

text \<open>
  C8. The name of a variable that was never named: \<open>Name\<close> returns the empty string for a
  new bool, int or float variable; the label made of kind and index (\<open>B0\<close>, \<open>I0\<close>, \<open>F0\<close>)
  comes from \<open>String\<close> only. After \<open>SetName\<close>, \<open>Name\<close> returns the assigned name.
\<close>

theorem unnamed_variable_has_empty_name:
  "(case NewBool (NewModel a) of
      (m, b) \<Rightarrow> Var_Name m b = '''' \<and> Var_String m b = ''B0'' \<and>
                Var_Name (Var_SetName m b name) b = name) \<and>
   (case NewInt (NewModel a) lb ub of
      (m, i) \<Rightarrow> Var_Name m i = '''' \<and> Var_String m i = ''I0'' \<and>
                Var_Name (Var_SetName m i name) i = name) \<and>
   (case NewFloat (NewModel a) (Finite 0) PosInf of
      (m, r) \<Rightarrow> \<exists>f. r = Inr f \<and> Var_Name m f = '''' \<and> Var_String m f = ''F0'' \<and>
                Var_Name (Var_SetName m f name) f = name)"
  by (simp add: NewBool_def NewInt_def NewFloat_def NewModel_def Var_Name_def Var_SetName_def
      getVarName_def setVarName_def IsNaN_def Let_def decimal.simps)

section \<open>Rounding in the sum of coefficients\<close>

lemma excess_bits_ge: "2 ^ (52 + t) \<le> n \<Longrightarrow> t \<le> excess_bits n"
proof (induction n arbitrary: t rule: excess_bits.induct)
  case (1 n)
  show ?case
  proof (cases t)
    case 0
    then show ?thesis by simp
  next
    case (Suc u)
    have p: "(2::nat) ^ (52 + t) = 2 ^ (52 + u) * 2"
      unfolding Suc by (simp only: add_Suc_right power_Suc mult.commute)
    have "(2::nat) ^ 53 = 2 ^ 52 * 2" by simp
    also have "\<dots> \<le> 2 ^ (52 + u) * 2"
      by (intro mult_le_mono1 power_increasing) simp_all
    finally have "(2::nat) ^ 53 \<le> n" using "1.prems" p by linarith
    then have big: "\<not> n < 2 ^ 53" by simp
    from "1.prems" p have "2 ^ (52 + u) * 2 \<le> n" by simp
    then have "2 ^ (52 + u) \<le> n div 2" by (simp add: less_eq_div_iff_mult_less_eq del: power_numeral)
    from "1.IH"[OF big this] big Suc show ?thesis
      by (simp add: excess_bits.simps[of n])
  qed
qed

lemma excess_bits_eq:
  "2 ^ (52 + t) \<le> n \<Longrightarrow> n < 2 ^ (53 + t) \<Longrightarrow> excess_bits n = t"
  by (intro antisym excess_bits_le excess_bits_ge)


lemma round_magnitude_tie_even:
  assumes q: "2 ^ 52 \<le> q" "q < 2 ^ 53" "even q"
  shows "round_magnitude (q * 2 ^ Suc u + 2 ^ u) = q * 2 ^ Suc u"
proof -
  let ?s = "Suc u"
  let ?a = "q * 2 ^ ?s + 2 ^ u"
  have half: "(2::nat) ^ u < 2 ^ ?s" by simp
  have lo: "2 ^ (52 + ?s) \<le> ?a"
  proof -
    have "(2::nat) ^ (52 + ?s) = 2 ^ 52 * 2 ^ ?s" by (simp only: power_add)
    also have "\<dots> \<le> q * 2 ^ ?s" using q(1) by (rule mult_le_mono1)
    finally show ?thesis by linarith
  qed
  have hi: "?a < 2 ^ (53 + ?s)"
  proof -
    have "?a < q * 2 ^ ?s + 2 ^ ?s" using half by linarith
    also have "\<dots> = (q + 1) * 2 ^ ?s" by (simp only: distrib_right mult_1)
    also have "\<dots> \<le> 2 ^ 53 * 2 ^ ?s" using q(2) by (intro mult_le_mono1) simp
    also have "\<dots> = 2 ^ (53 + ?s)" by (simp only: power_add)
    finally show ?thesis .
  qed
  have s: "excess_bits ?a = ?s" using lo hi by (rule excess_bits_eq)
  have d: "?a div 2 ^ ?s = q" using half by (simp del: power_Suc)
  have m: "?a mod 2 ^ ?s = 2 ^ u" using half by (simp del: power_Suc)
  have tie: "2 * (2::nat) ^ u = 2 ^ ?s" by simp
  show ?thesis
    unfolding round_magnitude_def Let_def s d m tie using q(3) by (simp del: power_Suc)
qed

lemma two53_Finite: "two53 = Finite (2 ^ 53 * 2 ^ 1074)"
proof -
  have e: "(2::int) ^ 53 * 2 ^ 1074 = 2 ^ 1127" by (simp only: power_add[symmetric]) simp
  have a: "nat \<bar>(2::int) ^ 1127\<bar> < 2 ^ (53 + 1075)"
    by (simp del: power_numeral add: nat_power_eq)
  have b: "(2::int) ^ 1075 dvd 2 ^ 1127" by (rule le_imp_power_dvd) simp
  have "round_even (2 ^ 1127) = Finite (2 ^ 1127)"
    by (rule round_even_exact[OF a b]) simp
  then show ?thesis unfolding two53_def float64_of_int_def e .
qed

lemma minus_two53_Finite: "minus_two53 = Finite (- (2 ^ 53 * 2 ^ 1074))"
proof -
  have e: "- ((2::int) ^ 53) * 2 ^ 1074 = - (2 ^ 1127)" by (simp only: power_add[symmetric] mult_minus_left) simp
  have a: "nat \<bar>- ((2::int) ^ 1127)\<bar> < 2 ^ (53 + 1075)"
    by (simp del: power_numeral add: nat_power_eq)
  have b: "(2::int) ^ 1075 dvd - (2 ^ 1127)" by (simp only: dvd_minus_iff) (rule le_imp_power_dvd, simp)
  have e2: "(2::int) ^ 53 * 2 ^ 1074 = 2 ^ 1127" by (simp only: power_add[symmetric]) simp
  have "round_even (- (2 ^ 1127)) = Finite (- (2 ^ 1127))"
    by (rule round_even_exact[OF a b]) simp
  then show ?thesis unfolding minus_two53_def float64_of_int_def e e2 .
qed

lemma one_Finite: "float64_of_int 1 = Finite (2 ^ 1074)"
  using float64_of_int_exact[of 1] by (simp del: power_numeral)

lemma two53_plus_one: "fadd two53 (float64_of_int 1) = two53"
proof -
  have q: "(2::nat) ^ 52 \<le> 2 ^ 52" "(2::nat) ^ 52 < 2 ^ 53" "even ((2::nat) ^ 52)" by simp_all
  have r: "round_magnitude (2 ^ 52 * 2 ^ Suc 1074 + 2 ^ 1074) = 2 ^ 52 * 2 ^ Suc 1074"
    by (rule round_magnitude_tie_even[OF q])
  have n1: "(2::nat) ^ 52 * 2 ^ Suc 1074 = 2 ^ 53 * 2 ^ 1074"
    by (simp only: power_Suc power_add[symmetric]) simp
  have k: "nat \<bar>(2::int) ^ 53 * 2 ^ 1074 + 2 ^ 1074\<bar> = 2 ^ 53 * 2 ^ 1074 + 2 ^ 1074"
    by (simp add: nat_add_distrib nat_mult_distrib nat_power_eq del: power_numeral)
  have v: "int (2 ^ 53 * 2 ^ 1074) = (2::int) ^ 53 * 2 ^ 1074" by (simp del: power_numeral)
  have small: "\<not> (2::int) ^ 2098 \<le> 2 ^ 53 * 2 ^ 1074"
  proof -
    have "(2::int) ^ 53 * 2 ^ 1074 = 2 ^ 1127" by (simp only: power_add[symmetric]) simp
    moreover have "(2::int) ^ 1127 < 2 ^ 2098" by (rule power_strict_increasing) simp_all
    ultimately show ?thesis by linarith
  qed
  have pos: "\<not> (2::int) ^ 53 * 2 ^ 1074 + 2 ^ 1074 < 0"
    by (simp add: not_less add_nonneg_nonneg del: power_numeral)
  have "round_even (2 ^ 53 * 2 ^ 1074 + 2 ^ 1074) = Finite (2 ^ 53 * 2 ^ 1074)"
    unfolding round_even_def Let_def k using r[unfolded n1] small pos
    by (simp only: v if_False)
  moreover have "(2::int) ^ 53 * 2 ^ 1074 \<noteq> 0" "(2::int) ^ 1074 \<noteq> 0" by simp_all
  ultimately show ?thesis
    unfolding two53_Finite one_Finite by (simp del: power_numeral)
qed

lemma two53_cancel: "fadd two53 minus_two53 = Finite 0"
proof -
  have "round_even 0 = Finite 0" by (rule round_even_exact[where t = 0]) simp_all
  moreover have "(2::int) ^ 53 * 2 ^ 1074 \<noteq> 0" by simp
  ultimately show ?thesis unfolding two53_Finite minus_two53_Finite by (simp del: power_numeral)
qed

lemma two53_nonzero: "two53 \<noteq> Finite 0" "minus_two53 \<noteq> Finite 0" "float64_of_int 1 \<noteq> Finite 0"
  unfolding two53_Finite minus_two53_Finite one_Finite by (simp_all del: power_numeral)

lemma two53_not_NaN: "\<not> IsNaN two53" "\<not> IsNaN minus_two53"
  unfolding two53_def minus_two53_def by (rule float64_of_int_not_NaN)+


text \<open>
  C1, as stated, fails. After \<open>NewTerm(2^53, x)\<close>, \<open>NewTerm(1, x)\<close>, \<open>NewTerm(-2^53, x)\<close> on
  a new objective or constraint the exact sum of the coefficients of \<open>x\<close> is 1, and \<open>Terms()\<close>
  is empty: \<open>2^53 + 1\<close> rounds to \<open>2^53\<close>, and the third call cancels it. The same calls in
  the order \<open>2^53\<close>, \<open>-2^53\<close>, \<open>1\<close> give the entry \<open>(x, 1)\<close>.
\<close>

theorem exact_sum_counterexample:
  "exactSum rounding_calls var_x = exactValue (float64_of_int 1) \<and>
   float64_of_int 1 \<noteq> Finite 0 \<and>
   objective_Terms (fst (forEach objective_NewTerm_call rounding_calls (objective (NewModel 0)))) = [] \<and>
   constraint_Terms (fst (forEach constraint_NewTerm_call rounding_calls fresh_constraint)) = [] \<and>
   objective_Terms (fst (forEach objective_NewTerm_call reordered_calls (objective (NewModel 0)))) =
     [\<lparr>Term.variable = var_x, Term.coefficient = float64_of_int 1\<rparr>]"
proof -
  have ok: "\<forall>call\<in>set rounding_calls. \<not> IsNaN (fst call)"
    "\<forall>call\<in>set reordered_calls. \<not> IsNaN (fst call)"
    by (simp_all add: rounding_calls_def reordered_calls_def two53_not_NaN float64_of_int_not_NaN)
  have e: "exactSum rounding_calls var_x = exactValue (float64_of_int 1)"
    unfolding exactSum_def rounding_calls_def
    by (simp add: exactValue_def two53_Finite minus_two53_Finite one_Finite del: power_numeral)
  have u: "makeLinearTermsUnique (map rawTerm rounding_calls) = []"
    by (simp add: makeLinearTermsUnique_def rawTerm_def rounding_calls_def two53_nonzero
        two53_plus_one two53_cancel Let_def delete_simps)
  have r: "makeLinearTermsUnique (map rawTerm reordered_calls) =
      [\<lparr>Term.variable = var_x, Term.coefficient = float64_of_int 1\<rparr>]"
    by (simp add: makeLinearTermsUnique_def rawTerm_def reordered_calls_def two53_nonzero
        two53_cancel Let_def delete_simps)
  have t: "objective.terms (objective (NewModel 0)) = []" "constraint.terms fresh_constraint = []"
    by (simp_all add: NewModel_def fresh_constraint_def)
  show ?thesis
    by (simp add: objective_NewTerm_calls[OF ok(1)] objective_NewTerm_calls[OF ok(2)]
        constraint_NewTerm_calls[OF ok(1)] objective_Terms_def constraint_Terms_def t e u r
        two53_nonzero)
qed

section \<open>Copy\<close>

lemma quadratic_model_eq:
  "quadratic_model =
     \<lparr>this = 0,
      objective =
        \<lparr>objective.terms = [\<lparr>Term.variable = var_y, Term.coefficient = float64_of_int 3\<rparr>],
         quadraticTerms =
           [\<lparr>variable1 = var_x, variable2 = var_y, coefficient = float64_of_int 1\<rparr>],
         maximize = False\<rparr>,
      constraintNames = Map.empty,
      varNames = Map.empty,
      constraints = [],
      vars = [var_x, var_y]\<rparr>"
  by (simp add: quadratic_model_def NewBool_def NewModel_def model_objective_NewQuadraticTerm_def
      model_objective_NewTerm_def objective_NewTerm_def
      NewQuadraticTerm_def newQuadraticTerm_def float64_of_int_not_NaN Let_def var_x_def var_y_def)

lemma forEach_invariant:
  assumes "P s" and "\<And>s x. P s \<Longrightarrow> P (fst (body s x))"
  shows "P (fst (forEach body xs s))"
  using assms(1)
proof (induction xs arbitrary: s)
  case Nil
  then show ?case by simp
next
  case (Cons x xs)
  obtain s' r where b: "body s x = (s', r)" by (cases "body s x")
  from assms(2)[OF Cons.prems, of x] b have "P s'" by simp
  then show ?case using Cons.IH[of s'] b by (cases r) simp_all
qed

lemma forEach_no_quadratic:
  assumes "no_quadratic s" and "\<And>s x. no_quadratic s \<Longrightarrow> no_quadratic (fst (body s x))"
  shows "no_quadratic (fst (forEach body xs s))"
  using assms by (rule forEach_invariant[where P = no_quadratic])

lemma copyVar_no_quadratic: "no_quadratic cm \<Longrightarrow> no_quadratic (fst (copyVar m cm v))"
  by (simp add: no_quadratic_def copyVar_def NewFloat_def NewBool_def NewInt_def Var_SetName_def
      setVarName_def Let_def split: prod.splits sum.splits)

lemma copyObjectiveTerm_no_quadratic:
  "no_quadratic cm \<Longrightarrow> no_quadratic (fst (copyObjectiveTerm vs cm t))"
  by (simp add: no_quadratic_def copyObjectiveTerm_def model_objective_NewTerm_def
      objective_NewTerm_def Let_def split: prod.splits sum.splits)

lemma copyConstraintTerm_no_quadratic:
  "no_quadratic cm \<Longrightarrow> no_quadratic (fst (copyConstraintTerm vs h cm t))"
  by (simp add: no_quadratic_def copyConstraintTerm_def model_constraint_NewTerm_def
      constraint_NewTerm_def Let_def split: prod.splits sum.splits)

lemma copyConstraint_no_quadratic:
  assumes "no_quadratic cm"
  shows "no_quadratic (fst (copyConstraint m vs cm i))"
proof (cases "IsNaN (RightHandSide (Constraints m ! i))")
  case True
  then show ?thesis using assms by (simp add: copyConstraint_def NewConstraint_def Let_def)
next
  case False
  let ?c = "Constraints m ! i"
  let ?cm = "cm\<lparr>constraints := constraints cm @
      [\<lparr>constraint.model = this cm, constraint.terms = [], rightHandSide = RightHandSide ?c,
        sense = constraint_Sense ?c\<rparr>]\<rparr>"
  have n: "no_quadratic ?cm" using assms by (simp add: no_quadratic_def)
  have l: "no_quadratic (fst (forEach (copyConstraintTerm vs (length (constraints cm)))
              (constraint_Terms ?c) ?cm))"
    by (rule forEach_no_quadratic[OF n]) (rule copyConstraintTerm_no_quadratic)
  show ?thesis using False l
    by (auto simp: copyConstraint_def NewConstraint_def Let_def no_quadratic_def
        constraint_SetName_def setConstraintName_def split: prod.splits sum.splits)
qed

lemma Copy_no_quadratic:
  assumes "Copy a m = Inr m'"
  shows "quadraticTerms (objective m') = []"
proof -
  let ?l1 = "forEach (copyVar m) (Vars m) (NewModel a)"
  have n0: "no_quadratic (NewModel a)" by (simp add: no_quadratic_def NewModel_def)
  have n1: "no_quadratic (fst ?l1)"
    by (rule forEach_no_quadratic[OF n0]) (rule copyVar_no_quadratic)
  let ?cm1 = "if IsMaximize (Objective m)
              then (fst ?l1)\<lparr>objective := SetMaximize (Objective (fst ?l1))\<rparr>
              else (fst ?l1)\<lparr>objective := SetMinimize (Objective (fst ?l1))\<rparr>"
  have n2: "no_quadratic ?cm1"
    using n1 by (simp add: no_quadratic_def SetMaximize_def SetMinimize_def Objective_def)
  let ?l2 = "forEach (copyObjectiveTerm (Vars ?cm1)) (objective_Terms (Objective m)) ?cm1"
  have n3: "no_quadratic (fst ?l2)"
    by (rule forEach_no_quadratic[OF n2]) (rule copyObjectiveTerm_no_quadratic)
  let ?l3 = "forEach (copyConstraint m (Vars ?cm1)) [0..<length (Constraints m)] (fst ?l2)"
  have n4: "no_quadratic (fst ?l3)"
    by (rule forEach_no_quadratic[OF n3]) (rule copyConstraint_no_quadratic)
  from assms have "m' = fst ?l3"
    unfolding Copy_def Let_def by (auto split: prod.splits sum.splits)
  with n4 show ?thesis by (simp add: no_quadratic_def)
qed


text \<open>
  C3. \<open>Copy\<close> replays the canonical linear terms of the objective and of the constraints
  and never calls \<open>NewQuadraticTerm\<close>. For the model with \<open>NewTerm(3, y)\<close> and
  \<open>NewQuadraticTerm(1, x, y)\<close> the source has the canonical quadratic term \<open>(1, x, y)\<close> and
  is quadratic; its copy has the two variables, their names and the linear term, no
  quadratic term, and is linear.
\<close>

theorem Copy_loses_quadratic_terms:
  "objective_QuadraticTerms (Objective quadratic_model) =
     [\<lparr>variable1 = var_x, variable2 = var_y, coefficient = float64_of_int 1\<rparr>] \<and>
   IsQuadratic (Objective quadratic_model) \<and>
   Copy 1 quadratic_model =
     Inr \<lparr>this = 1,
          objective =
            \<lparr>objective.terms = [\<lparr>Term.variable = copy_y, Term.coefficient = float64_of_int 3\<rparr>],
             quadraticTerms = [],
             maximize = False\<rparr>,
          constraintNames = Map.empty,
          varNames = [copy_x \<mapsto> '''', copy_y \<mapsto> ''''],
          constraints = [],
          vars = [copy_x, copy_y]\<rparr> \<and>
   objective_QuadraticTerms (Objective (projr (Copy 1 quadratic_model))) = [] \<and>
   IsLinear (Objective (projr (Copy 1 quadratic_model)))"
proof -
  have q: "objective_QuadraticTerms (Objective quadratic_model) =
     [\<lparr>variable1 = var_x, variable2 = var_y, coefficient = float64_of_int 1\<rparr>]"
    by (simp add: quadratic_model_eq Objective_def objective_QuadraticTerms_def
        makeQuadraticTermsUnique_def quadraticTerms_body_def float64_of_int_zero_iff Let_def)
  have i: "IsQuadratic (Objective quadratic_model)"
    by (simp add: quadratic_model_eq Objective_def IsQuadratic_def)
  have t: "objective_Terms (Objective quadratic_model) =
     [\<lparr>Term.variable = var_y, Term.coefficient = float64_of_int 3\<rparr>]"
    by (simp add: quadratic_model_eq Objective_def objective_Terms_def makeLinearTermsUnique_def
        float64_of_int_zero_iff)
  have v: "forEach (copyVar quadratic_model) (Vars quadratic_model) (NewModel 1) =
      (\<lparr>this = 1,
        objective = \<lparr>objective.terms = [], quadraticTerms = [], maximize = False\<rparr>,
        constraintNames = Map.empty,
        varNames = [copy_x \<mapsto> '''', copy_y \<mapsto> ''''],
        constraints = [],
        vars = [copy_x, copy_y]\<rparr>, Inr ())"
    by (simp add: quadratic_model_eq Vars_def copyVar_def NewBool_def NewModel_def Var_SetName_def
        Var_Name_def getVarName_def setVarName_def var_x_def var_y_def copy_x_def copy_y_def
        Let_def)
  have c: "Copy 1 quadratic_model =
     Inr \<lparr>this = 1,
          objective =
            \<lparr>objective.terms = [\<lparr>Term.variable = copy_y, Term.coefficient = float64_of_int 3\<rparr>],
             quadraticTerms = [],
             maximize = False\<rparr>,
          constraintNames = Map.empty,
          varNames = [copy_x \<mapsto> '''', copy_y \<mapsto> ''''],
          constraints = [],
          vars = [copy_x, copy_y]\<rparr>"
    unfolding Copy_def v t
    by (simp add: quadratic_model_eq Objective_def IsMaximize_def SetMinimize_def Vars_def
        Constraints_def copyObjectiveTerm_def model_objective_NewTerm_def objective_NewTerm_def
        float64_of_int_not_NaN var_y_def Let_def)
  show ?thesis unfolding c using q i
    by (simp add: Objective_def objective_QuadraticTerms_def makeQuadraticTermsUnique_def
        IsLinear_def IsQuadratic_def)
qed

section \<open>The slices Vars and Constraints return\<close>

lemma fold_max_ge: "b \<le> fold max xs (b::nat)"
proof (induction xs arbitrary: b)
  case Nil
  then show ?case by simp
next
  case (Cons x xs)
  have "b \<le> max x b" by simp
  also have "\<dots> \<le> fold max xs (max x b)" by (rule Cons.IH)
  finally show ?case by simp
qed

lemma fold_max_member: "x \<in> set xs \<Longrightarrow> x \<le> fold max xs (b::nat)"
proof (induction xs arbitrary: b)
  case Nil
  then show ?case by simp
next
  case (Cons y ys)
  show ?case
  proof (cases "x = y")
    case True
    have "x \<le> max y b" using True by simp
    also have "\<dots> \<le> fold max ys (max y b)" by (rule fold_max_ge)
    finally show ?thesis by simp
  next
    case False
    with Cons.prems have "x \<in> set ys" by simp
    then show ?thesis using Cons.IH by simp
  qed
qed

lemma fresh_notin: "fresh h \<notin> fst ` set h"
proof
  assume "fresh h \<in> fst ` set h"
  then have "fresh h \<in> set (map fst h)" by simp
  then have "fresh h \<le> fold max (map fst h) 0" by (rule fold_max_member)
  then show False by (simp add: fresh_def)
qed

lemma backing_update: "backing (AList.update a xs h) b = (if b = a then xs else backing h b)"
  by (simp add: backing_def update_conv')

lemma mutate_keeps_other_array:
  assumes "array s \<noteq> a" and "a \<in> fst ` set h"
  shows "backing (fst (mutate s ms h)) a = backing h a"
  using assms
proof (induction ms arbitrary: s h)
  case Nil
  then show ?case by simp
next
  case (Cons m ms)
  show ?case
  proof (cases m)
    case (Overwrite i x)
    show ?thesis
    proof (cases "i < len s")
      case True
      let ?h = "AList.update (array s) ((backing h (array s))[i := x]) h"
      have d: "a \<in> fst ` set ?h" using Cons.prems(2) by (simp add: dom_update)
      have "backing (fst (mutate s ms ?h)) a = backing ?h a"
        using Cons.prems(1) d by (rule Cons.IH)
      also have "\<dots> = backing h a" using Cons.prems(1) by (simp add: backing_update)
      finally show ?thesis using Overwrite True by (simp add: slice_set_def)
    next
      case False
      then show ?thesis using Overwrite by (simp add: slice_set_def)
    qed
  next
    case (Append x)
    show ?thesis
    proof (cases "len s < cap s")
      case True
      let ?h = "AList.update (array s) ((backing h (array s))[len s := x]) h"
      let ?s = "s\<lparr>len := len s + 1\<rparr>"
      have d: "a \<in> fst ` set ?h" using Cons.prems(2) by (simp add: dom_update)
      have n: "array ?s \<noteq> a" using Cons.prems(1) by simp
      have "backing (fst (mutate ?s ms ?h)) a = backing ?h a"
        using n d by (rule Cons.IH)
      also have "\<dots> = backing h a" using Cons.prems(1) by (simp add: backing_update)
      finally show ?thesis using Append True by (simp add: append_slice_def)
    next
      case False
      let ?xs = "elems h s @ [x] @ replicate (max (len s + 1) (2 * cap s) - (len s + 1)) None"
      let ?h = "AList.update (fresh h) ?xs h"
      let ?s = "\<lparr>array = fresh h, len = len s + 1, cap = max (len s + 1) (2 * cap s)\<rparr>"
      have f: "fresh h \<noteq> a" using Cons.prems(2) fresh_notin[of h] by auto
      have d: "a \<in> fst ` set ?h" using Cons.prems(2) by (simp add: dom_update)
      have n: "array ?s \<noteq> a" using f by simp
      have "backing (fst (mutate ?s ms ?h)) a = backing ?h a"
        using n d by (rule Cons.IH)
      also have "\<dots> = backing h a" using f by (simp add: backing_update)
      finally show ?thesis using Append False by (simp add: append_slice_def Let_def)
    qed
  qed
qed

lemma make_copy:
  assumes "array src \<in> fst ` set h"
  shows "case make_slice (len src) h of
           (h1, dst) \<Rightarrow>
             array dst = fresh h \<and> len dst = len src \<and> cap dst = len src \<and>
             elems (copy_slice dst src h1) dst = elems h src \<and>
             backing (copy_slice dst src h1) (array src) = backing h (array src) \<and>
             array src \<in> fst ` set (copy_slice dst src h1)"
proof -
  have f: "fresh h \<noteq> array src"
  proof
    assume "fresh h = array src"
    with assms have "fresh h \<in> fst ` set h" by simp
    with fresh_notin[of h] show False by blast
  qed
  then have f': "array src \<noteq> fresh h" by simp
  show ?thesis using f f' assms
    by (simp add: make_slice_def copy_slice_def Let_def backing_update elems_def dom_update)
qed


lemma accessor_slice:
  assumes "array src \<in> fst ` set h"
  shows "case make_slice (len src) h of
           (h1, dst) \<Rightarrow>
             elems (copy_slice dst src h1) dst = elems h src \<and>
             array dst \<notin> fst ` set h \<and>
             array dst \<noteq> array src \<and>
             elems (copy_slice dst src h1) src = elems h src \<and>
             (\<forall>ms. elems (fst (mutate dst ms (copy_slice dst src h1))) src = elems h src)"
proof -
  obtain h1 dst where md: "make_slice (len src) h = (h1, dst)" by (cases "make_slice (len src) h")
  from make_copy[OF assms] md have
    a: "array dst = fresh h" and
    e: "elems (copy_slice dst src h1) dst = elems h src" and
    b: "backing (copy_slice dst src h1) (array src) = backing h (array src)" and
    d: "array src \<in> fst ` set (copy_slice dst src h1)"
    by simp_all
  have n: "array dst \<notin> fst ` set h" unfolding a by (rule fresh_notin)
  have ne: "array dst \<noteq> array src"
  proof
    assume "array dst = array src"
    with assms have "array dst \<in> fst ` set h" by simp
    with n show False by blast
  qed
  have m: "\<And>ms. backing (fst (mutate dst ms (copy_slice dst src h1))) (array src) =
      backing h (array src)"
    using mutate_keeps_other_array[OF ne d] b by simp
  show ?thesis unfolding md using e n ne b m by (simp add: elems_def)
qed

text \<open>
  C9. \<open>Vars()\<close> and \<open>Constraints()\<close> return a slice with the elements of the model's
  slice in a backing array that did not exist before the call, so it is not the model's
  array. The call leaves the model's sequence as it was, and so does every sequence
  of overwrites and appends a caller applies to the returned slice (and to the slices
  its appends return). The model's slice is any slice whose array is allocated.
\<close>

theorem accessors_return_fresh_slices:
  assumes "array vars' \<in> fst ` set h" and "array constraints' \<in> fst ` set g"
  shows "(case Vars_slice vars' h of
            (h1, variables) \<Rightarrow>
              elems h1 variables = elems h vars' \<and>
              array variables \<notin> fst ` set h \<and>
              array variables \<noteq> array vars' \<and>
              elems h1 vars' = elems h vars' \<and>
              (\<forall>ms. elems (fst (mutate variables ms h1)) vars' = elems h vars')) \<and>
         (case Constraints_slice constraints' g of
            (g1, constraints'') \<Rightarrow>
              elems g1 constraints'' = elems g constraints' \<and>
              array constraints'' \<notin> fst ` set g \<and>
              array constraints'' \<noteq> array constraints' \<and>
              elems g1 constraints' = elems g constraints' \<and>
              (\<forall>ms. elems (fst (mutate constraints'' ms g1)) constraints' = elems g constraints'))"
  using accessor_slice[OF assms(1)] accessor_slice[OF assms(2)]
  by (simp add: Vars_slice_def Constraints_slice_def split: prod.splits)


theorem accessors_return_fresh_slices_witness:
  "array example_vars_slice \<in> fst ` set example_store \<and>
   array example_constraints_slice \<in> fst ` set example_constraint_store \<and>
   Vars_slice example_vars_slice example_store =
     ([(1, [Some var_x, Some var_y]), (2, [Some var_x, Some var_y])],
      \<lparr>array = 2, len = 2, cap = 2\<rparr>) \<and>
   mutate \<lparr>array = 2, len = 2, cap = 2\<rparr> [Overwrite 0 None, Append (Some var_z)]
       [(1, [Some var_x, Some var_y]), (2, [Some var_x, Some var_y])] =
     ([(1, [Some var_x, Some var_y]), (2, [None, Some var_y]),
       (3, [None, Some var_y, Some var_z, None])],
      \<lparr>array = 3, len = 3, cap = 4\<rparr>) \<and>
   elems (fst (mutate (snd (Vars_slice example_vars_slice example_store))
                 [Overwrite 0 None, Append (Some var_z)]
                 (fst (Vars_slice example_vars_slice example_store))))
     example_vars_slice = [Some var_x, Some var_y] \<and>
   elems (fst (mutate (snd (Constraints_slice example_constraints_slice example_constraint_store))
                 [Append (Some 5), Overwrite 1 None]
                 (fst (Constraints_slice example_constraints_slice example_constraint_store))))
     example_constraints_slice = [Some 0, Some 1]"
proof -
  have h1: "array example_vars_slice \<in> fst ` set example_store"
    by (simp add: example_vars_slice_def example_store_def)
  have h2: "array example_constraints_slice \<in> fst ` set example_constraint_store"
    by (simp add: example_constraints_slice_def example_constraint_store_def)
  have v: "Vars_slice example_vars_slice example_store =
     ([(1, [Some var_x, Some var_y]), (2, [Some var_x, Some var_y])],
      \<lparr>array = 2, len = 2, cap = 2\<rparr>)"
    by (simp add: Vars_slice_def make_slice_def copy_slice_def fresh_def backing_def
        example_vars_slice_def example_store_def Let_def numeral_2_eq_2)
  have m: "mutate \<lparr>array = 2, len = 2, cap = 2\<rparr> [Overwrite 0 None, Append (Some var_z)]
       [(1, [Some var_x, Some var_y]), (2, [Some var_x, Some var_y])] =
     ([(1, [Some var_x, Some var_y]), (2, [None, Some var_y]),
       (3, [None, Some var_y, Some var_z, None])],
      \<lparr>array = 3, len = 3, cap = 4\<rparr>)"
    by (simp add: slice_set_def append_slice_def fresh_def backing_def elems_def Let_def
        numeral_3_eq_3 numeral_2_eq_2)
  have e1: "elems example_store example_vars_slice = [Some var_x, Some var_y]"
    by (simp add: elems_def backing_def example_vars_slice_def example_store_def)
  have e2: "elems example_constraint_store example_constraints_slice = [Some 0, Some 1]"
    by (simp add: elems_def backing_def example_constraints_slice_def example_constraint_store_def
        numeral_2_eq_2)
  note T = accessors_return_fresh_slices[OF h1 h2, unfolded case_prod_beta e1 e2]
  from T have a: "elems (fst (mutate (snd (Vars_slice example_vars_slice example_store))
                 [Overwrite 0 None, Append (Some var_z)]
                 (fst (Vars_slice example_vars_slice example_store))))
     example_vars_slice = [Some var_x, Some var_y]" by blast
  from T have b: "elems (fst (mutate (snd (Constraints_slice example_constraints_slice example_constraint_store))
                 [Append (Some 5), Overwrite 1 None]
                 (fst (Constraints_slice example_constraints_slice example_constraint_store))))
     example_constraints_slice = [Some 0, Some 1]" by blast
  from h1 h2 v m a b show ?thesis by (intro conjI)
qed

text \<open>
  The sequences \<open>Vars\<close> and \<open>Constraints\<close> of the model are what the returned slices
  hold, when the model's slices hold the model's variables and constraint pointers.
\<close>

lemma Vars_slice_abstraction:
  assumes "array vars' \<in> fst ` set h" and "elems h vars' = map Some (Vars m)"
  shows "elems (fst (Vars_slice vars' h)) (snd (Vars_slice vars' h)) = map Some (Vars m)"
  using accessor_slice[OF assms(1)] assms(2)
  by (simp add: Vars_slice_def case_prod_beta)

lemma Constraints_slice_abstraction:
  assumes "array constraints' \<in> fst ` set g"
    and "elems g constraints' = map Some [0..<length (Constraints m)]"
  shows "elems (fst (Constraints_slice constraints' g)) (snd (Constraints_slice constraints' g)) =
           map Some [0..<length (Constraints m)]"
  using accessor_slice[OF assms(1)] assms(2)
  by (simp add: Constraints_slice_def case_prod_beta)

section \<open>Canonical quadratic terms\<close>

lemma lookup2_update:
  "lookup2 (AList.update k m T) a b = (if a = k then map_of m b else lookup2 T a b)"
  by (simp add: lookup2_def update_conv')

lemma nested_ok_update:
  "nested_ok T \<Longrightarrow> distinct (map fst m) \<Longrightarrow> nested_ok (AList.update k m T)"
  by (simp add: nested_ok_def distinct_update update_conv')

lemma quadratic_entry_None: "quadratic_entry a b s = None \<longleftrightarrow> s = Finite 0"
  by (simp add: quadratic_entry_def)

lemma quadratic_entry_Some:
  "quadratic_entry a b s = Some q \<longleftrightarrow>
     s \<noteq> Finite 0 \<and> q = \<lparr>variable1 = a, variable2 = b, coefficient = s\<rparr>"
  by (auto simp: quadratic_entry_def)

lemma quadraticTerms_body_invariant:
  assumes ok: "nested_ok T"
    and inv: "\<And>a b. lookup2 T a b = quadratic_entry a b (S a b)"
  shows "nested_ok (quadraticTerms_body T v) \<and>
         (\<forall>a b. lookup2 (quadraticTerms_body T v) a b =
            quadratic_entry a b
              (if a = variable1 v \<and> b = variable2 v
               then fadd (S a b) (QuadraticTerm.coefficient v) else S a b))"
proof (cases "QuadraticTerm.coefficient v = Finite 0")
  case True
  then show ?thesis using ok inv
    by (simp add: quadraticTerms_body_def Let_def fadd_zero_right)
next
  case nz: False
  let ?v1 = "variable1 v" and ?v2 = "variable2 v" and ?c = "QuadraticTerm.coefficient v"
  have v: "\<lparr>variable1 = ?v1, variable2 = ?v2, coefficient = ?c\<rparr> = v" by simp
  show ?thesis
  proof (cases "map_of T ?v1")
    case None
    have S0: "\<And>b. S ?v1 b = Finite 0"
    proof -
      fix b
      have "lookup2 T ?v1 b = None" using None by (simp add: lookup2_def)
      then show "S ?v1 b = Finite 0" unfolding inv by (simp add: quadratic_entry_None)
    qed
    have b: "quadraticTerms_body T v = AList.update ?v1 [(?v2, v)] T"
      using nz None by (simp add: quadraticTerms_body_def Let_def)
    have "nested_ok (AList.update ?v1 [(?v2, v)] T)"
      using ok by (rule nested_ok_update) simp
    moreover have "\<And>a b. lookup2 (AList.update ?v1 [(?v2, v)] T) a b =
            quadratic_entry a b (if a = ?v1 \<and> b = ?v2 then fadd (S a b) ?c else S a b)"
      using nz v by (auto simp: lookup2_update inv S0 fadd_zero_left quadratic_entry_def)
    ultimately show ?thesis unfolding b by simp
  next
    case (Some mqt)
    have dm: "distinct (map fst mqt)" using ok Some by (auto simp: nested_ok_def)
    have m: "\<And>b. map_of mqt b = quadratic_entry ?v1 b (S ?v1 b)"
      using inv[of ?v1] Some by (simp add: lookup2_def)
    show ?thesis
    proof (cases "map_of mqt ?v2")
      case None
      then have S0: "S ?v1 ?v2 = Finite 0" unfolding m by (simp add: quadratic_entry_None)
      have b: "quadraticTerms_body T v = AList.update ?v1 (AList.update ?v2 v mqt) T"
        using nz Some None by (simp add: quadraticTerms_body_def Let_def)
      have "nested_ok (AList.update ?v1 (AList.update ?v2 v mqt) T)"
        using ok by (rule nested_ok_update) (simp add: distinct_update dm)
      moreover have "\<And>a b. lookup2 (AList.update ?v1 (AList.update ?v2 v mqt) T) a b =
            quadratic_entry a b (if a = ?v1 \<and> b = ?v2 then fadd (S a b) ?c else S a b)"
        using nz v by (auto simp: lookup2_update update_conv' inv m S0 fadd_zero_left quadratic_entry_def)
      ultimately show ?thesis unfolding b by simp
    next
      case (Some qt)
      then have qt: "S ?v1 ?v2 \<noteq> Finite 0" "QuadraticTerm.coefficient qt = S ?v1 ?v2"
        unfolding m by (auto simp: quadratic_entry_Some)
      have comm: "fadd ?c (S ?v1 ?v2) = fadd (S ?v1 ?v2) ?c" by (rule fadd_commute)
      show ?thesis
      proof (cases "fadd (S ?v1 ?v2) ?c = Finite 0")
        case True
        have b: "quadraticTerms_body T v = AList.update ?v1 (AList.delete ?v2 mqt) T"
          using nz \<open>map_of T ?v1 = Some mqt\<close> Some qt(2) True comm
          by (simp add: quadraticTerms_body_def Let_def)
        have "nested_ok (AList.update ?v1 (AList.delete ?v2 mqt) T)"
          using ok by (rule nested_ok_update) (simp add: distinct_delete dm)
        moreover have "\<And>a b. lookup2 (AList.update ?v1 (AList.delete ?v2 mqt) T) a b =
            quadratic_entry a b (if a = ?v1 \<and> b = ?v2 then fadd (S a b) ?c else S a b)"
          using True by (auto simp: lookup2_update delete_conv' inv m quadratic_entry_def)
        ultimately show ?thesis unfolding b by simp
      next
        case False
        let ?n = "\<lparr>variable1 = ?v1, variable2 = ?v2, coefficient = fadd (S ?v1 ?v2) ?c\<rparr>"
        have b: "quadraticTerms_body T v = AList.update ?v1 (AList.update ?v2 ?n mqt) T"
          using nz \<open>map_of T ?v1 = Some mqt\<close> Some qt(2) False comm
          by (simp add: quadraticTerms_body_def Let_def)
        have "nested_ok (AList.update ?v1 (AList.update ?v2 ?n mqt) T)"
          using ok by (rule nested_ok_update) (simp add: distinct_update dm)
        moreover have "\<And>a b. lookup2 (AList.update ?v1 (AList.update ?v2 ?n mqt) T) a b =
            quadratic_entry a b (if a = ?v1 \<and> b = ?v2 then fadd (S a b) ?c else S a b)"
          using False by (auto simp: lookup2_update update_conv' inv m quadratic_entry_def)
        ultimately show ?thesis unfolding b by simp
      qed
    qed
  qed
qed


lemma quadraticTerms_loop_invariant:
  assumes "nested_ok T"
    and "\<And>a b. lookup2 T a b = quadratic_entry a b (S a b)"
  shows "nested_ok (quadraticTerms_loop T qs) \<and>
         (\<forall>a b. lookup2 (quadraticTerms_loop T qs) a b =
            quadratic_entry a b
              (foldl fadd (S a b) (map QuadraticTerm.coefficient (pairTerms qs a b))))"
  using assms
proof (induction qs arbitrary: T S)
  case Nil
  then show ?case by (simp add: pairTerms_def)
next
  case (Cons v qs)
  let ?S = "\<lambda>a b. if a = variable1 v \<and> b = variable2 v
                   then fadd (S a b) (QuadraticTerm.coefficient v) else S a b"
  from quadraticTerms_body_invariant[OF Cons.prems(1), of S v] Cons.prems(2)
  have ok: "nested_ok (quadraticTerms_body T v)"
    and inv: "\<And>a b. lookup2 (quadraticTerms_body T v) a b = quadratic_entry a b (?S a b)"
    by simp_all
  have fold: "\<And>a b. foldl fadd (S a b) (map QuadraticTerm.coefficient (pairTerms (v # qs) a b)) =
      foldl fadd (?S a b) (map QuadraticTerm.coefficient (pairTerms qs a b))"
    by (simp add: pairTerms_def)
  from Cons.IH[of "quadraticTerms_body T v" ?S, OF ok inv] show ?case
    unfolding fold by simp
qed

lemma quadraticTerms_loop_lookup:
  "nested_ok (quadraticTerms_loop [] qs) \<and>
   (\<forall>a b. lookup2 (quadraticTerms_loop [] qs) a b = quadratic_entry a b (quadraticSum qs a b))"
  unfolding quadraticSum_def
  by (rule quadraticTerms_loop_invariant[where S = "\<lambda>_ _. Finite 0"])
     (simp_all add: nested_ok_def lookup2_def quadratic_entry_def)

lemma filter_inner:
  assumes "distinct (map fst mqt)"
    and "\<And>k2 q. (k2, q) \<in> set mqt \<Longrightarrow> variable1 q = k \<and> variable2 q = k2"
  shows "filter (\<lambda>q. variable1 q = a \<and> variable2 q = b) (map snd mqt) =
           (if k = a then (case map_of mqt b of None \<Rightarrow> [] | Some q \<Rightarrow> [q]) else [])"
  using assms
proof (induction mqt)
  case Nil
  then show ?case by simp
next
  case (Cons e mqt)
  obtain k2 q where e: "e = (k2, q)" by (cases e)
  have kq: "variable1 q = k" "variable2 q = k2" using Cons.prems(2)[of k2 q] e by simp_all
  have d: "distinct (map fst mqt)" and n: "k2 \<notin> fst ` set mqt" using Cons.prems(1) e by simp_all
  have p2: "\<And>k2 q. (k2, q) \<in> set mqt \<Longrightarrow> variable1 q = k \<and> variable2 q = k2"
  proof -
    fix k2 q
    assume "(k2, q) \<in> set mqt"
    then have "(k2, q) \<in> set (e # mqt)" by simp
    then show "variable1 q = k \<and> variable2 q = k2" by (rule Cons.prems(2))
  qed
  have IH: "filter (\<lambda>q. variable1 q = a \<and> variable2 q = b) (map snd mqt) =
           (if k = a then (case map_of mqt b of None \<Rightarrow> [] | Some q \<Rightarrow> [q]) else [])"
    by (rule Cons.IH[OF d p2])
  show ?case
  proof (cases "k = a \<and> k2 = b")
    case True
    then have "map_of mqt b = None" using n by (simp add: map_of_eq_None_iff)
    then show ?thesis using True e kq IH by simp
  next
    case False
    then show ?thesis using e kq IH by auto
  qed
qed

lemma filter_nested:
  assumes "distinct (map fst T)"
    and "\<And>k mqt. (k, mqt) \<in> set T \<Longrightarrow> distinct (map fst mqt)"
    and "\<And>k mqt k2 q. (k, mqt) \<in> set T \<Longrightarrow> (k2, q) \<in> set mqt \<Longrightarrow>
           variable1 q = k \<and> variable2 q = k2"
  shows "filter (\<lambda>q. variable1 q = a \<and> variable2 q = b)
           (concat (map (\<lambda>(k, mqt). map snd mqt) T)) =
         (case lookup2 T a b of None \<Rightarrow> [] | Some q \<Rightarrow> [q])"
  using assms
proof (induction T)
  case Nil
  then show ?case by (simp add: lookup2_def)
next
  case (Cons e T)
  obtain k mqt where e: "e = (k, mqt)" by (cases e)
  have d: "distinct (map fst T)" and n: "k \<notin> fst ` set T" using Cons.prems(1) e by simp_all
  have p2: "\<And>k mqt. (k, mqt) \<in> set T \<Longrightarrow> distinct (map fst mqt)"
  proof -
    fix k mqt
    assume "(k, mqt) \<in> set T"
    then have "(k, mqt) \<in> set (e # T)" by simp
    then show "distinct (map fst mqt)" by (rule Cons.prems(2))
  qed
  have p3: "\<And>k mqt k2 q. (k, mqt) \<in> set T \<Longrightarrow> (k2, q) \<in> set mqt \<Longrightarrow>
           variable1 q = k \<and> variable2 q = k2"
  proof -
    fix k mqt k2 q
    assume "(k, mqt) \<in> set T" and i: "(k2, q) \<in> set mqt"
    then have "(k, mqt) \<in> set (e # T)" by simp
    then show "variable1 q = k \<and> variable2 q = k2" using i by (rule Cons.prems(3))
  qed
  have IH: "filter (\<lambda>q. variable1 q = a \<and> variable2 q = b)
           (concat (map (\<lambda>(k, mqt). map snd mqt) T)) =
         (case lookup2 T a b of None \<Rightarrow> [] | Some q \<Rightarrow> [q])"
    by (rule Cons.IH[OF d p2 p3])
  have inner: "filter (\<lambda>q. variable1 q = a \<and> variable2 q = b) (map snd mqt) =
           (if k = a then (case map_of mqt b of None \<Rightarrow> [] | Some q \<Rightarrow> [q]) else [])"
    using Cons.prems(2)[of k mqt] Cons.prems(3)[of k mqt] e by (intro filter_inner) simp_all
  show ?case
  proof (cases "k = a")
    case True
    then have "map_of T a = None" using n by (simp add: map_of_eq_None_iff)
    then have "lookup2 T a b = None" by (simp add: lookup2_def)
    then show ?thesis using True e inner IH by (simp add: lookup2_def)
  next
    case False
    then show ?thesis using e inner IH by (simp add: lookup2_def)
  qed
qed

lemma makeQuadraticTermsUnique_pair:
  "filter (\<lambda>q. variable1 q = a \<and> variable2 q = b) (makeQuadraticTermsUnique qs) =
     (if quadraticSum qs a b = Finite 0 then []
      else [\<lparr>variable1 = a, variable2 = b, coefficient = quadraticSum qs a b\<rparr>])"
proof -
  let ?T = "quadraticTerms_loop [] qs"
  from quadraticTerms_loop_lookup[of qs] have ok: "nested_ok ?T"
    and inv: "\<And>a b. lookup2 ?T a b = quadratic_entry a b (quadraticSum qs a b)" by simp_all
  have d: "distinct (map fst ?T)" using ok by (simp add: nested_ok_def)
  have di: "\<And>k mqt. (k, mqt) \<in> set ?T \<Longrightarrow> distinct (map fst mqt)"
    using ok d by (auto simp: nested_ok_def)
  have key: "\<And>k mqt k2 q. (k, mqt) \<in> set ?T \<Longrightarrow> (k2, q) \<in> set mqt \<Longrightarrow>
           variable1 q = k \<and> variable2 q = k2"
  proof -
    fix k mqt k2 q
    assume a: "(k, mqt) \<in> set ?T" and b: "(k2, q) \<in> set mqt"
    from a d have "map_of ?T k = Some mqt" by simp
    moreover from b di[OF a] have "map_of mqt k2 = Some q" by simp
    ultimately have "lookup2 ?T k k2 = Some q" by (simp add: lookup2_def)
    then show "variable1 q = k \<and> variable2 q = k2"
      unfolding inv by (auto simp: quadratic_entry_Some)
  qed
  have "filter (\<lambda>q. variable1 q = a \<and> variable2 q = b) (makeQuadraticTermsUnique qs) =
         (case lookup2 ?T a b of None \<Rightarrow> [] | Some q \<Rightarrow> [q])"
    unfolding makeQuadraticTermsUnique_def using d di key by (rule filter_nested)
  then show ?thesis unfolding inv by (simp add: quadratic_entry_def)
qed

lemma makeQuadraticTermsUnique_member:
  assumes "q \<in> set (makeQuadraticTermsUnique qs)"
  shows "quadraticSum qs (variable1 q) (variable2 q) \<noteq> Finite 0 \<and>
         QuadraticTerm.coefficient q = quadraticSum qs (variable1 q) (variable2 q) \<and>
         pairTerms qs (variable1 q) (variable2 q) \<noteq> []"
proof -
  from assms have "q \<in> set (filter (\<lambda>p. variable1 p = variable1 q \<and> variable2 p = variable2 q)
      (makeQuadraticTermsUnique qs))" by simp
  then have nz: "quadraticSum qs (variable1 q) (variable2 q) \<noteq> Finite 0"
    and eq: "q = \<lparr>variable1 = variable1 q, variable2 = variable2 q,
                coefficient = quadraticSum qs (variable1 q) (variable2 q)\<rparr>"
    unfolding makeQuadraticTermsUnique_pair by (auto split: if_splits)
  from eq have "QuadraticTerm.coefficient q =
      QuadraticTerm.coefficient \<lparr>variable1 = variable1 q, variable2 = variable2 q,
                coefficient = quadraticSum qs (variable1 q) (variable2 q)\<rparr>"
    by (rule arg_cong)
  then have c: "QuadraticTerm.coefficient q = quadraticSum qs (variable1 q) (variable2 q)"
    by simp
  from nz have "pairTerms qs (variable1 q) (variable2 q) \<noteq> []"
    by (auto simp: quadraticSum_def)
  with nz c show ?thesis by simp
qed


lemma newQuadraticTerm_ordered: "ordered (newQuadraticTerm c u w)"
  by (simp add: ordered_def newQuadraticTerm_def)

lemma canonical_quadratic_ordered:
  assumes "\<forall>q\<in>set qs. ordered q" and "q \<in> set (makeQuadraticTermsUnique qs)"
  shows "ordered q"
proof -
  from makeQuadraticTermsUnique_member[OF assms(2)]
  have "pairTerms qs (variable1 q) (variable2 q) \<noteq> []" by simp
  then obtain r where "r \<in> set (pairTerms qs (variable1 q) (variable2 q))"
    by (cases "pairTerms qs (variable1 q) (variable2 q)") auto
  then have r: "r \<in> set qs" "variable1 r = variable1 q" "variable2 r = variable2 q"
    by (simp_all add: pairTerms_def)
  with assms(1) have "ordered r" by blast
  with r show ?thesis by (simp add: ordered_def)
qed

lemma quadraticSum_two_more:
  "quadraticSum
     (qs @ [\<lparr>variable1 = lo, variable2 = hi, coefficient = c\<rparr>,
            \<lparr>variable1 = lo, variable2 = hi, coefficient = c2\<rparr>]) lo hi =
   fadd (fadd (quadraticSum qs lo hi) c) c2"
  by (simp add: quadraticSum_def pairTerms_def)

text \<open>
  C2, amended. Let the stored quadratic terms of an objective be ordered by index (they
  are, since only \<open>NewQuadraticTerm\<close> stores them), let \<open>A\<close> and \<open>B\<close> be variables that
  are the same when their indices are (variables of one model), and let \<open>c\<close> and \<open>c2\<close> not
  be NaN. Then \<open>NewQuadraticTerm(c, A, B)\<close> followed by \<open>NewQuadraticTerm(c2, B, A)\<close> stores
  two terms for the same ordered pair, lower index first. With \<open>s\<close> the float64 sum of
  the coefficients declared for the pair before, then \<open>c\<close>, then \<open>c2\<close>, the canonical set
  holds exactly one term for the unordered pair \<open>{A, B}\<close>, with coefficient \<open>s\<close>, when \<open>s\<close>
  is not zero, and none when \<open>s\<close> is zero; \<open>s\<close> is \<open>c + c2\<close> when nothing was declared for the
  pair before. Every stored term, every canonical term and every term the
  \<open>QuadraticTerm\<close> query returns has \<open>Var1().Index() <= Var2().Index()\<close>.
\<close>

theorem quadratic_pair_aggregation:
  assumes "\<not> IsNaN c" and "\<not> IsNaN c2" and "Index A = Index B \<longrightarrow> A = B"
    and "\<forall>q\<in>set (quadraticTerms ob). ordered q"
  shows "case NewQuadraticTerm ob c A B of
           (ob1, r1) \<Rightarrow>
             (case NewQuadraticTerm ob1 c2 B A of
                (ob2, r2) \<Rightarrow>
                  (let lo = (if Index A \<le> Index B then A else B);
                       hi = (if Index A \<le> Index B then B else A);
                       s = fadd (fadd (quadraticSum (quadraticTerms ob) lo hi) c) c2
                   in r1 = Inr \<lparr>variable1 = lo, variable2 = hi, coefficient = c\<rparr> \<and>
                      r2 = Inr \<lparr>variable1 = lo, variable2 = hi, coefficient = c2\<rparr> \<and>
                      quadraticTerms ob2 =
                        quadraticTerms ob @
                          [\<lparr>variable1 = lo, variable2 = hi, coefficient = c\<rparr>,
                           \<lparr>variable1 = lo, variable2 = hi, coefficient = c2\<rparr>] \<and>
                      filter (\<lambda>q. {variable1 q, variable2 q} = {A, B})
                        (objective_QuadraticTerms ob2) =
                        (if s = Finite 0 then []
                         else [\<lparr>variable1 = lo, variable2 = hi, coefficient = s\<rparr>]) \<and>
                      (pairTerms (quadraticTerms ob) lo hi = [] \<longrightarrow> s = fadd c c2) \<and>
                      (\<forall>q\<in>set (quadraticTerms ob2). ordered q) \<and>
                      (\<forall>q\<in>set (objective_QuadraticTerms ob2). ordered q) \<and>
                      (\<forall>u w. ordered (fst (objective_QuadraticTerm ob2 u w)))))"
proof -
  define lo where "lo = (if Index A \<le> Index B then A else B)"
  define hi where "hi = (if Index A \<le> Index B then B else A)"
  define s where "s = fadd (fadd (quadraticSum (quadraticTerms ob) lo hi) c) c2"
  let ?t1 = "\<lparr>variable1 = lo, variable2 = hi, coefficient = c\<rparr>"
  let ?t2 = "\<lparr>variable1 = lo, variable2 = hi, coefficient = c2\<rparr>"
  let ?qs = "quadraticTerms ob @ [?t1, ?t2]"
  let ?ob2 = "ob\<lparr>quadraticTerms := ?qs\<rparr>"
  have lohi: "Index lo \<le> Index hi" by (simp add: lo_def hi_def)
  have pair: "{lo, hi} = {A, B}" by (auto simp: lo_def hi_def)
  have same: "Index lo = Index hi \<Longrightarrow> lo = hi" using assms(3) by (auto simp: lo_def hi_def)
  have n1: "newQuadraticTerm c A B = ?t1"
    by (simp add: newQuadraticTerm_def lo_def hi_def)
  have n2: "newQuadraticTerm c2 B A = ?t2"
    using assms(3) by (auto simp: newQuadraticTerm_def lo_def hi_def)
  have c1: "NewQuadraticTerm ob c A B = (ob\<lparr>quadraticTerms := quadraticTerms ob @ [?t1]\<rparr>, Inr ?t1)"
    using assms(1) by (simp add: NewQuadraticTerm_def n1 Let_def)
  have c2: "NewQuadraticTerm (ob\<lparr>quadraticTerms := quadraticTerms ob @ [?t1]\<rparr>) c2 B A =
      (?ob2, Inr ?t2)"
    using assms(2) by (simp add: NewQuadraticTerm_def n2 Let_def)
  have raw: "\<forall>q\<in>set ?qs. ordered q"
    using assms(4) lohi by (auto simp: ordered_def)
  have can: "\<forall>q\<in>set (makeQuadraticTermsUnique ?qs). ordered q"
    using canonical_quadratic_ordered[OF raw] by blast
  have "filter (\<lambda>q. {variable1 q, variable2 q} = {A, B}) (makeQuadraticTermsUnique ?qs) =
        filter (\<lambda>q. variable1 q = lo \<and> variable2 q = hi) (makeQuadraticTermsUnique ?qs)"
  proof (rule filter_cong[OF refl])
    fix q
    assume "q \<in> set (makeQuadraticTermsUnique ?qs)"
    with can have o: "Index (variable1 q) \<le> Index (variable2 q)" by (auto simp: ordered_def)
    show "({variable1 q, variable2 q} = {A, B}) = (variable1 q = lo \<and> variable2 q = hi)"
    proof
      assume "{variable1 q, variable2 q} = {A, B}"
      then have "{variable1 q, variable2 q} = {lo, hi}" using pair by simp
      then have "(variable1 q = lo \<and> variable2 q = hi) \<or> (variable1 q = hi \<and> variable2 q = lo)"
        by (auto simp: doubleton_eq_iff)
      then show "variable1 q = lo \<and> variable2 q = hi"
      proof
        assume "variable1 q = lo \<and> variable2 q = hi"
        then show ?thesis .
      next
        assume r: "variable1 q = hi \<and> variable2 q = lo"
        with o lohi have "Index lo = Index hi" by simp
        then have "lo = hi" by (rule same)
        with r show ?thesis by simp
      qed
    next
      assume "variable1 q = lo \<and> variable2 q = hi"
      then show "{variable1 q, variable2 q} = {A, B}" using pair by simp
    qed
  qed
  also have "\<dots> = (if s = Finite 0 then []
                    else [\<lparr>variable1 = lo, variable2 = hi, coefficient = s\<rparr>])"
    unfolding makeQuadraticTermsUnique_pair quadraticSum_two_more s_def by simp
  finally have f: "filter (\<lambda>q. {variable1 q, variable2 q} = {A, B})
       (makeQuadraticTermsUnique ?qs) =
     (if s = Finite 0 then [] else [\<lparr>variable1 = lo, variable2 = hi, coefficient = s\<rparr>])" .
  have fr: "pairTerms (quadraticTerms ob) lo hi = [] \<longrightarrow> s = fadd c c2"
    by (simp add: s_def quadraticSum_def fadd_zero_left)
  have qq: "\<forall>u w. ordered (fst (objective_QuadraticTerm ?ob2 u w))"
    by (simp add: objective_QuadraticTerm_def newQuadraticTerm_ordered split: prod.splits)
  show ?thesis
    unfolding c1 c2 prod.case Let_def lo_def[symmetric] hi_def[symmetric] s_def[symmetric]
    using f fr raw can qq by (simp add: objective_QuadraticTerms_def)
qed


text \<open>
  C2, as stated, fails. After \<open>NewQuadraticTerm(1, x, y)\<close> and
  \<open>NewQuadraticTerm(-1, y, x)\<close> on a new objective, \<open>c + c2\<close> is zero and the canonical set
  has no term for \<open>{x, y}\<close>. On an objective that already holds \<open>(1, x, y)\<close>, the calls
  with \<open>c = 1\<close> and \<open>c2 = 2\<close> give the coefficient 4, not \<open>c + c2 = 3\<close>. For two variables
  of different models with the same index the two calls give two canonical terms.
\<close>

theorem quadratic_pair_counterexample:
  "fadd (float64_of_int 1) (float64_of_int (- 1)) = Finite 0 \<and>
   filter (\<lambda>q. {variable1 q, variable2 q} = {var_x, var_y})
     (objective_QuadraticTerms cancelled_objective) = [] \<and>
   fadd (float64_of_int 1) (float64_of_int 2) = float64_of_int 3 \<and>
   float64_of_int 4 \<noteq> float64_of_int 3 \<and>
   objective_QuadraticTerms
     (fst (NewQuadraticTerm (fst (NewQuadraticTerm quadratic_objective (float64_of_int 1) var_x var_y))
             (float64_of_int 2) var_y var_x)) =
     [\<lparr>variable1 = var_x, variable2 = var_y, coefficient = float64_of_int 4\<rparr>] \<and>
   objective_QuadraticTerms
     (fst (NewQuadraticTerm (fst (NewQuadraticTerm (objective (NewModel 0)) (float64_of_int 1) var_x copy_x))
             (float64_of_int 2) copy_x var_x)) =
     [\<lparr>variable1 = var_x, variable2 = copy_x, coefficient = float64_of_int 1\<rparr>,
      \<lparr>variable1 = copy_x, variable2 = var_x, coefficient = float64_of_int 2\<rparr>]"
proof -
  have a: "fadd (float64_of_int 1) (float64_of_int (- 1)) = Finite 0"
    using fadd_float64_of_int[of 1 "- 1"] by (simp add: float64_of_int_zero_iff[of 0, simplified])
  have b: "objective_QuadraticTerms cancelled_objective = []"
    by (simp add: objective_QuadraticTerms_def makeQuadraticTermsUnique_def quadraticTerms_body_def
        cancelled_objective_quadraticTerms float64_of_int_zero_iff fadd_float64_of_int Let_def
        delete_simps var_x_def var_y_def)
  have c: "fadd (float64_of_int 1) (float64_of_int 2) = float64_of_int 3"
    by (simp add: fadd_float64_of_int)
  have d: "float64_of_int 4 \<noteq> float64_of_int 3"
    using float64_of_int_exact[of 4] float64_of_int_exact[of 3] by simp
  have e: "objective_QuadraticTerms
     (fst (NewQuadraticTerm (fst (NewQuadraticTerm quadratic_objective (float64_of_int 1) var_x var_y))
             (float64_of_int 2) var_y var_x)) =
     [\<lparr>variable1 = var_x, variable2 = var_y, coefficient = float64_of_int 4\<rparr>]"
    by (simp add: objective_QuadraticTerms_def makeQuadraticTermsUnique_def quadraticTerms_body_def
        NewQuadraticTerm_def newQuadraticTerm_def quadratic_objective_quadraticTerms
        float64_of_int_not_NaN float64_of_int_zero_iff fadd_float64_of_int Let_def
        var_x_def var_y_def)
  have f: "objective_QuadraticTerms
     (fst (NewQuadraticTerm (fst (NewQuadraticTerm (objective (NewModel 0)) (float64_of_int 1) var_x copy_x))
             (float64_of_int 2) copy_x var_x)) =
     [\<lparr>variable1 = var_x, variable2 = copy_x, coefficient = float64_of_int 1\<rparr>,
      \<lparr>variable1 = copy_x, variable2 = var_x, coefficient = float64_of_int 2\<rparr>]"
    by (simp add: objective_QuadraticTerms_def makeQuadraticTermsUnique_def quadraticTerms_body_def
        NewQuadraticTerm_def newQuadraticTerm_def NewModel_def
        float64_of_int_not_NaN float64_of_int_zero_iff Let_def var_x_def copy_x_def)
  show ?thesis unfolding b using a c d e f by simp
qed

theorem quadratic_pair_aggregation_witness:
  "\<not> IsNaN (float64_of_int 1) \<and> \<not> IsNaN (float64_of_int 2) \<and>
   Index var_x \<noteq> Index var_y \<and>
   list_all ordered (quadraticTerms (objective (NewModel 0))) \<and>
   filter (\<lambda>q. {variable1 q, variable2 q} = {var_x, var_y})
     (objective_QuadraticTerms
        (fst (NewQuadraticTerm
                (fst (NewQuadraticTerm (objective (NewModel 0)) (float64_of_int 1) var_x var_y))
                (float64_of_int 2) var_y var_x))) =
     [\<lparr>variable1 = var_x, variable2 = var_y, coefficient = float64_of_int 3\<rparr>] \<and>
   filter (\<lambda>q. {variable1 q, variable2 q} = {var_x, var_x})
     (objective_QuadraticTerms
        (fst (NewQuadraticTerm
                (fst (NewQuadraticTerm (objective (NewModel 0)) (float64_of_int 1) var_x var_x))
                (float64_of_int 2) var_x var_x))) =
     [\<lparr>variable1 = var_x, variable2 = var_x, coefficient = float64_of_int 3\<rparr>]"
proof -
  have h1: "\<not> IsNaN (float64_of_int 1)" and h2: "\<not> IsNaN (float64_of_int 2)"
    by (rule float64_of_int_not_NaN)+
  have i: "Index var_x \<noteq> Index var_y" by (simp add: var_x_def var_y_def)
  then have h3: "Index var_x = Index var_y \<longrightarrow> var_x = var_y" by simp
  have h3': "Index var_x = Index var_x \<longrightarrow> var_x = var_x" by simp
  have q0: "quadraticTerms (objective (NewModel 0)) = []" by (simp add: NewModel_def)
  have h4: "\<forall>q\<in>set (quadraticTerms (objective (NewModel 0))). ordered q" by (simp add: q0)
  have lo: "Index var_x \<le> Index var_y" by (simp add: var_x_def var_y_def)
  have lo': "Index var_x \<le> Index var_x" by simp
  have s: "\<And>v w. fadd (fadd (quadraticSum [] v w) (float64_of_int 1)) (float64_of_int 2) =
      float64_of_int 3"
    by (simp add: quadraticSum_def pairTerms_def fadd_zero_left fadd_float64_of_int)
  have nz: "float64_of_int 3 \<noteq> Finite 0" by (simp add: float64_of_int_zero_iff)
  note T = quadratic_pair_aggregation[OF h1 h2 h3 h4,
      unfolded case_prod_beta Let_def q0 if_P[OF lo] s]
  note U = quadratic_pair_aggregation[OF h1 h2 h3' h4,
      unfolded case_prod_beta Let_def q0 if_P[OF lo'] s]
  from T nz have a: "filter (\<lambda>q. {variable1 q, variable2 q} = {var_x, var_y})
     (objective_QuadraticTerms
        (fst (NewQuadraticTerm
                (fst (NewQuadraticTerm (objective (NewModel 0)) (float64_of_int 1) var_x var_y))
                (float64_of_int 2) var_y var_x))) =
     [\<lparr>variable1 = var_x, variable2 = var_y, coefficient = float64_of_int 3\<rparr>]"
    by simp
  from U nz have b: "filter (\<lambda>q. {variable1 q, variable2 q} = {var_x, var_x})
     (objective_QuadraticTerms
        (fst (NewQuadraticTerm
                (fst (NewQuadraticTerm (objective (NewModel 0)) (float64_of_int 1) var_x var_x))
                (float64_of_int 2) var_x var_x))) =
     [\<lparr>variable1 = var_x, variable2 = var_x, coefficient = float64_of_int 3\<rparr>]"
    by simp
  from h1 h2 i h4 a b show ?thesis unfolding list_all_iff by (intro conjI)
qed

end
